theory Spec2Isabelle
  imports Complex_Main "HOL-Library.Word"
begin

section \<open>The data the tunneling engine works on\<close>

text \<open>
  The C++ sources compute with \<^verbatim>\<open>double\<close>. Wherever the code only computes with a
  double and compares it, the double is a \<^typ>\<open>real\<close> here: infinities are not part
  of the model, and rounding and the exponent range are only where the outcome hangs
  on them, in the search for the temperature range. The one place where the code asks
  whether a double is a number at all (\<^verbatim>\<open>std::isnan\<close> in
  \<^verbatim>\<open>GradientFromStartingPoints::FindMinima\<close>) reads the value and the error of a
  minimum, so these two carry an explicit not-a-number.
\<close>

datatype double = Number real | NaN

fun isnan :: "double \<Rightarrow> bool" where
  "isnan NaN = True"
| "isnan (Number x) = False"

text \<open>
  \<^verbatim>\<open>PotentialMinimum\<close> is declared in \<^verbatim>\<open>PotentialMinimum.hpp\<close>; the sources read its
  field configuration, its function value and its function error.
\<close>

record PotentialMinimum =
  FieldConfiguration :: "real list"
  FunctionValue :: double
  FunctionError :: double

text \<open>
  Modelled from the spec: \<^verbatim>\<open>PotentialMinimum::LengthSquared\<close> and
  \<^verbatim>\<open>PotentialMinimum::SquareDistanceTo\<close> are defined in \<^verbatim>\<open>PotentialMinimum.hpp\<close>,
  which is not among the sources; the spec compares minima "by squared Euclidean
  distance".
\<close>

definition LengthSquared :: "PotentialMinimum \<Rightarrow> real" where
  "LengthSquared m = (\<Sum>x\<leftarrow>FieldConfiguration m. x * x)"

definition SquareDistanceTo :: "PotentialMinimum \<Rightarrow> PotentialMinimum \<Rightarrow> real" where
  "SquareDistanceTo m other =
     (\<Sum>(x, y)\<leftarrow>zip (FieldConfiguration m) (FieldConfiguration other). (x - y) * (x - y))"

text \<open>
  \<^verbatim>\<open>PotentialFunction\<close> is an abstract class: \<^verbatim>\<open>operator()\<close> (here \<open>energyDensity\<close>,
  with the temperature as second argument), \<^verbatim>\<open>ScaleSquaredRelevantToTunneling\<close> and
  \<^verbatim>\<open>FieldConfigurationAsMathematica\<close> are supplied by the concrete potential, so
  they are fields of the record, as is the stored field origin.
\<close>

record PotentialFunction =
  energyDensity :: "real list \<Rightarrow> real \<Rightarrow> real"
  ScaleSquaredRelevantToTunneling :: "PotentialMinimum \<Rightarrow> PotentialMinimum \<Rightarrow> real"
  FieldConfigurationAsMathematica :: "real list \<Rightarrow> string"
  FieldValuesOrigin :: "real list"

text \<open>
  Modelled from the spec: the enumeration \<^verbatim>\<open>TunnelingCalculator::TunnelingStrategy\<close> is
  declared in \<^verbatim>\<open>TunnelingCalculator.hpp\<close>, which is not among the sources. The five
  strategies are those of the spec's table; \<open>OtherStrategy\<close> stands for every other
  value the enumeration can hold, which \<^verbatim>\<open>CalculateTunneling\<close> handles in its last
  \<^verbatim>\<open>else\<close>.
\<close>

datatype TunnelingStrategy =
  NoTunneling | JustQuantum | JustThermal | QuantumThenThermal | ThermalThenQuantum
  | OtherStrategy

text \<open>The members of \<^verbatim>\<open>BounceActionTunneler\<close> (with those of its base class).\<close>

record BounceActionTunneler =
  tunnelingStrategy :: TunnelingStrategy
  survivalProbabilityThreshold :: real
  temperatureAccuracy :: nat
  vacuumSeparationFractionSquared :: real
  quantumSurvivalProbability :: real
  quantumLifetimeInSeconds :: real
  thermalSurvivalProbability :: real
  partialThermalDecayWidth :: real
  dominantTemperatureInGigaElectronVolts :: real
  logOfMinusLogOfQuantumProbability :: real
  logOfMinusLogOfThermalProbability :: real

text \<open>
  The virtual member functions of \<^verbatim>\<open>BounceActionTunneler\<close> that a derived class
  supplies: the bounce action is a number, \<^verbatim>\<open>BelowCriticalTemperature\<close> answers whether
  the given vacuum is still a minimum at the given temperature, and the other three
  update the object. They are functions: the same arguments give the same answer.
\<close>

record Virtuals =
  BounceAction :: "PotentialFunction \<Rightarrow> PotentialMinimum \<Rightarrow> PotentialMinimum \<Rightarrow> real \<Rightarrow> real"
  BelowCriticalTemperature :: "PotentialFunction \<Rightarrow> real \<Rightarrow> PotentialMinimum \<Rightarrow> bool"
  PrepareCommonExtras :: "PotentialFunction \<Rightarrow> BounceActionTunneler \<Rightarrow> BounceActionTunneler"
  SetUpMaximumTemperatureRanges ::
    "PotentialFunction \<Rightarrow> PotentialMinimum \<Rightarrow> PotentialMinimum \<Rightarrow> real
       \<Rightarrow> BounceActionTunneler \<Rightarrow> BounceActionTunneler"
  ContinueThermalTunneling ::
    "PotentialFunction \<Rightarrow> PotentialMinimum \<Rightarrow> PotentialMinimum \<Rightarrow> real
       \<Rightarrow> BounceActionTunneler \<Rightarrow> BounceActionTunneler"

text \<open>
  A run of the engine: the object, the warnings handed to \<^verbatim>\<open>WarningLogger::LogWarning\<close>
  so far, and the record of which of the two calculations were entered, in order.
  The virtual functions act on the object only.
\<close>

datatype calculation = Quantum | Thermal

record run =
  tunneler :: BounceActionTunneler
  warnings :: "string list"
  calculations :: "calculation list"

definition LogWarning :: "string \<Rightarrow> run \<Rightarrow> run" where
  "LogWarning message r = r\<lparr>warnings := warnings r @ [message]\<rparr>"

definition entered :: "calculation \<Rightarrow> run \<Rightarrow> run" where
  "entered c r = r\<lparr>calculations := calculations r @ [c]\<rparr>"

definition onTunneler :: "(BounceActionTunneler \<Rightarrow> BounceActionTunneler) \<Rightarrow> run \<Rightarrow> run" where
  "onTunneler f r = r\<lparr>tunneler := f (tunneler r)\<rparr>"

datatype error = RuntimeError string

section \<open>The constants of BounceActionTunneler.cpp\<close>

text \<open>\<^verbatim>\<open>std::numeric_limits< double >::max()\<close> of IEEE binary64.\<close>

definition DBL_MAX :: real where
  "DBL_MAX = (2 ^ 53 - 1) * 2 ^ 971"

definition maximumPowerOfNaturalExponent :: real where
  "maximumPowerOfNaturalExponent = ln (0.5 * DBL_MAX)"


definition hBarInGigaElectronVoltSeconds :: real where
  "hBarInGigaElectronVoltSeconds = 658211928 / 10 ^ 33"

definition ageOfKnownUniverseInSeconds :: real where
  "ageOfKnownUniverseInSeconds = 43 * 10 ^ 16"

definition ageOfKnownUniverseInInverseGigaElectronVolts :: real where
  "ageOfKnownUniverseInInverseGigaElectronVolts =
     ageOfKnownUniverseInSeconds / hBarInGigaElectronVoltSeconds"

section \<open>BounceActionTunneler::CalculateQuantumTunneling\<close>

definition CalculateQuantumTunneling ::
  "Virtuals \<Rightarrow> PotentialFunction \<Rightarrow> PotentialMinimum \<Rightarrow> PotentialMinimum \<Rightarrow> run \<Rightarrow> run" where
  "CalculateQuantumTunneling v potentialFunction falseVacuum trueVacuum r0 =
     (let r = entered Quantum r0;
          quantumAction = BounceAction v potentialFunction falseVacuum trueVacuum 0;
          fourthRootOfSolitonicFactor =
            sqrt (ScaleSquaredRelevantToTunneling potentialFunction falseVacuum trueVacuum);
          r = onTunneler (\<lambda>t. t\<lparr>logOfMinusLogOfQuantumProbability :=
                  ln ((ageOfKnownUniverseInSeconds * hBarInGigaElectronVoltSeconds)
                        / fourthRootOfSolitonicFactor) - 0.25 * quantumAction\<rparr>) r
      in if quantumAction \<ge> maximumPowerOfNaturalExponent then
           LogWarning (''The calculated bounce action was so large and positive that''
               @ '' exponentiating it would result in an overflow error, so capping the''
               @ '' lifetime at 1e+100 seconds and setting the survival probability to one.'')
             (onTunneler (\<lambda>t. t\<lparr>quantumLifetimeInSeconds := 10 ^ 100,
                                 quantumSurvivalProbability := 1\<rparr>) r)
         else if quantumAction \<le> - maximumPowerOfNaturalExponent then
           LogWarning (''The calculated bounce action was so large and negative that''
               @ '' exponentiating it would result in an overflow error, so capping the''
               @ '' lifetime at 0.1 seconds and setting the survival probability to zero.'')
             (onTunneler (\<lambda>t. t\<lparr>quantumLifetimeInSeconds := 1 / 10,
                                 quantumSurvivalProbability := 0\<rparr>) r)
         else
           (let lifetime = (exp quantumAction * hBarInGigaElectronVoltSeconds)
                  / (ageOfKnownUniverseInInverseGigaElectronVolts ^ 3
                       * fourthRootOfSolitonicFactor ^ 4);
                r = onTunneler (\<lambda>t. t\<lparr>quantumLifetimeInSeconds := lifetime\<rparr>) r;
                survivalExponent = ageOfKnownUniverseInSeconds / lifetime
            in if survivalExponent \<ge> maximumPowerOfNaturalExponent then
                 LogWarning (''The calculated decay width was so large that exponentiating it''
                     @ '' would result in an overflow error, so setting the survival''
                     @ '' probability to zero.'')
                   (onTunneler (\<lambda>t. t\<lparr>quantumSurvivalProbability := 0\<rparr>) r)
               else
                 onTunneler (\<lambda>t. t\<lparr>quantumSurvivalProbability := exp (- survivalExponent)\<rparr>) r))"

section \<open>BounceActionTunneler::CalculateThermalTunneling\<close>

definition CalculateThermalTunneling ::
  "Virtuals \<Rightarrow> PotentialFunction \<Rightarrow> PotentialMinimum \<Rightarrow> PotentialMinimum \<Rightarrow> run \<Rightarrow> run" where
  "CalculateThermalTunneling v potentialFunction falseVacuum trueVacuum r0 =
     (let r = entered Thermal r0;
          thresholdSeparationSquared =
            vacuumSeparationFractionSquared (tunneler r) * SquareDistanceTo falseVacuum trueVacuum;
          DsbRolledToOrigin = (LengthSquared falseVacuum < thresholdSeparationSquared);
          potentialAtOriginAtZeroTemperature =
            energyDensity potentialFunction (FieldValuesOrigin potentialFunction) 0
      in if energyDensity potentialFunction (FieldConfiguration falseVacuum) 0
              > potentialAtOriginAtZeroTemperature \<and> \<not> DsbRolledToOrigin then
           LogWarning (''DSB vacuum has higher energy density than vacuum with no non-zero''
               @ '' VEVs! Assuming that it is implausible that the Universe cooled into''
               @ '' this false vacuum from the symmetric phase, and so setting survival''
               @ '' probability to zero.'')
             (onTunneler (\<lambda>t. t\<lparr>dominantTemperatureInGigaElectronVolts := 0,
                                 thermalSurvivalProbability := 0,
                                 logOfMinusLogOfThermalProbability :=
                                   - exp maximumPowerOfNaturalExponent\<rparr>) r)
         else
           onTunneler (ContinueThermalTunneling v potentialFunction falseVacuum trueVacuum
                         potentialAtOriginAtZeroTemperature)
             (onTunneler (SetUpMaximumTemperatureRanges v potentialFunction falseVacuum
                            trueVacuum potentialAtOriginAtZeroTemperature) r))"

section \<open>BounceActionTunneler::CalculateTunneling\<close>

text \<open>
  A \<^verbatim>\<open>throw\<close> leaves the function at once: the result pairs the error, if any, with the
  run as the throw or the return leaves it.
\<close>

definition notCalculated :: "BounceActionTunneler \<Rightarrow> BounceActionTunneler" where
  "notCalculated t = t\<lparr>quantumSurvivalProbability := - 1,
                        quantumLifetimeInSeconds := - 1,
                        thermalSurvivalProbability := - 1,
                        partialThermalDecayWidth := - 1,
                        dominantTemperatureInGigaElectronVolts := - 1\<rparr>"

definition notDeeperMessage :: "PotentialFunction \<Rightarrow> PotentialMinimum \<Rightarrow> PotentialMinimum \<Rightarrow> string" where
  "notDeeperMessage potentialFunction falseVacuum trueVacuum =
     ''Tunneling from a given vacuum at''
     @ FieldConfigurationAsMathematica potentialFunction (FieldConfiguration falseVacuum)
     @ '' to what should be a deeper vacuum at ''
     @ FieldConfigurationAsMathematica potentialFunction (FieldConfiguration trueVacuum)
     @ '' requested, but the given deeper vacuum was not actually deeper, so''
     @ '' tunneling is impossible.''"

definition CalculateTunneling ::
  "Virtuals \<Rightarrow> PotentialFunction \<Rightarrow> PotentialMinimum \<Rightarrow> PotentialMinimum \<Rightarrow> run
     \<Rightarrow> (error + unit) \<times> run" where
  "CalculateTunneling v potentialFunction falseVacuum trueVacuum r0 =
     (if \<not> (energyDensity potentialFunction (FieldConfiguration trueVacuum) 0
               < energyDensity potentialFunction (FieldConfiguration falseVacuum) 0) then
        (Inl (RuntimeError (notDeeperMessage potentialFunction falseVacuum trueVacuum)), r0)
      else
        (let r = onTunneler notCalculated r0 in
         if tunnelingStrategy (tunneler r) = NoTunneling then (Inr (), r)
         else
           (let r = onTunneler (PrepareCommonExtras v potentialFunction) r in
            if tunnelingStrategy (tunneler r) = JustQuantum then
              (Inr (), CalculateQuantumTunneling v potentialFunction falseVacuum trueVacuum r)
            else if tunnelingStrategy (tunneler r) = JustThermal then
              (Inr (), CalculateThermalTunneling v potentialFunction falseVacuum trueVacuum r)
            else if tunnelingStrategy (tunneler r) = QuantumThenThermal then
              (let r = CalculateQuantumTunneling v potentialFunction falseVacuum trueVacuum r in
               if quantumSurvivalProbability (tunneler r)
                    > survivalProbabilityThreshold (tunneler r) then
                 (Inr (), CalculateThermalTunneling v potentialFunction falseVacuum trueVacuum r)
               else (Inr (), r))
            else if tunnelingStrategy (tunneler r) = ThermalThenQuantum then
              (let r = CalculateThermalTunneling v potentialFunction falseVacuum trueVacuum r in
               if thermalSurvivalProbability (tunneler r)
                    > survivalProbabilityThreshold (tunneler r) then
                 (Inr (), CalculateQuantumTunneling v potentialFunction falseVacuum trueVacuum r)
               else (Inr (), r))
            else (Inr (), r))))"

section \<open>BounceActionTunneler::SetThermalSurvivalProbability\<close>

definition SetThermalSurvivalProbability :: "run \<Rightarrow> run" where
  "SetThermalSurvivalProbability r =
     (if logOfMinusLogOfThermalProbability (tunneler r) \<ge> maximumPowerOfNaturalExponent then
        LogWarning (''The calculated bounce action was so large and positive that''
            @ '' exponentiating it would result in an overflow error, so setting the''
            @ '' survival probability to zero.'')
          (onTunneler (\<lambda>t. t\<lparr>thermalSurvivalProbability := 0\<rparr>) r)
      else if logOfMinusLogOfThermalProbability (tunneler r)
                \<le> - maximumPowerOfNaturalExponent then
        onTunneler (\<lambda>t. t\<lparr>thermalSurvivalProbability := 1\<rparr>)
          (LogWarning (''The calculated bounce action was so large and negative that''
               @ '' exponentiating it would result in an overflow error, so setting the''
               @ '' survival probability to one.'') r)
      else if exp (logOfMinusLogOfThermalProbability (tunneler r))
                \<ge> maximumPowerOfNaturalExponent then
        LogWarning (''The calculated integrated decay width was so large and positive that''
            @ '' exponentiating it would result in an overflow error, so setting the''
            @ '' survival probability to zero.'')
          (onTunneler (\<lambda>t. t\<lparr>thermalSurvivalProbability := 0\<rparr>) r)
      else
        onTunneler (\<lambda>t. t\<lparr>thermalSurvivalProbability :=
                            exp (- exp (logOfMinusLogOfThermalProbability (tunneler r)))\<rparr>) r)"

section \<open>BounceActionTunneler::SetMaximumTunnelingTemperatureRange\<close>






















section \<open>NodesOnBisectingPlanes: the constructor\<close>

text \<open>
  \<^verbatim>\<open>size_t\<close> is the unsigned 64-bit integer of the LP64 platforms the program is built
  on: \<open>+\<close>, \<open>-\<close> and \<open>*\<close> wrap around. An index past the end of a vector is
  undefined behaviour in C++; the model stops there with \<open>OutOfRangeWrite\<close> instead of
  going on. The three \<^verbatim>\<open>resize\<close> calls are taken to succeed, where the program
  throws \<^verbatim>\<open>std::length_error\<close> or \<^verbatim>\<open>std::bad_alloc\<close> when the vectors cannot be
  allocated: a plan that the program produces is a plan of the model, not the other
  way round.

  The constructor of the base class \<^verbatim>\<open>NodesOnPlanes\<close> is not among the sources. Of
  \<^verbatim>\<open>pathNodes\<close> the constructor uses the size only, which it sets itself, and the
  rotation matrices it allocates are written by \<^verbatim>\<open>UpdateRotationMatrix\<close>, so the record
  keeps the number of path nodes, the adjustment order and the side node indices.
\<close>

type_synonym size_t = "64 word"

datatype undefinedBehaviour = OutOfRangeWrite

record NodesOnBisectingPlanes =
  numberOfFields :: size_t
  numberOfIntermediateNodes :: size_t
  pathNodesSize :: size_t
  adjustmentOrder :: "size_t list"
  sideNodeIndices :: "(size_t \<times> size_t) list"

text \<open>
  The \<^verbatim>\<open>while\<close> loop that doubles \<^verbatim>\<open>this->numberOfIntermediateNodes\<close> (here \<open>nodes\<close>)
  while it is not above the requested number. Nothing bounds it, so \<open>None\<close> is the
  loop that never ends.
\<close>

partial_function (option) doublingLoop ::
  "size_t \<Rightarrow> size_t \<Rightarrow> size_t \<Rightarrow> (size_t \<times> size_t) option" where
  "doublingLoop requested nodes numberOfSplits =
     (if nodes \<le> requested then doublingLoop requested (nodes * 2) (numberOfSplits + 1)
      else Some (nodes, numberOfSplits))"

declare doublingLoop.simps [code]

text \<open>The inner \<^verbatim>\<open>for\<close> loop over \<^verbatim>\<open>whichSegment\<close>.\<close>

function segmentLoop ::
  "size_t \<Rightarrow> size_t \<Rightarrow> size_t \<Rightarrow> size_t list \<times> (size_t \<times> size_t) list
     \<Rightarrow> undefinedBehaviour + size_t list \<times> (size_t \<times> size_t) list" where
  "segmentLoop segmentSize newSegmentsInSplit whichSegment (order, sides) =
     (if whichSegment < newSegmentsInSplit then
        (let currentIndex = segmentSize * (1 + 2 * whichSegment) in
         if unat currentIndex < length sides then
           segmentLoop segmentSize newSegmentsInSplit (whichSegment + 1)
             (order @ [currentIndex],
              sides[unat currentIndex := (currentIndex - segmentSize, currentIndex + segmentSize)])
         else Inl OutOfRangeWrite)
      else Inr (order, sides))"
  by pat_completeness auto
termination
proof (relation "measure (\<lambda>(segmentSize, newSegmentsInSplit, whichSegment, plan).
                            unat newSegmentsInSplit - unat whichSegment)")
  show "wf (measure (\<lambda>(segmentSize, newSegmentsInSplit, whichSegment, plan).
                            unat newSegmentsInSplit - unat whichSegment))"
    by simp
next
  fix segmentSize newSegmentsInSplit whichSegment currentIndex :: size_t
    and order :: "size_t list" and sides :: "(size_t \<times> size_t) list"
  assume less: "whichSegment < newSegmentsInSplit"
  have below: "unat whichSegment < unat newSegmentsInSplit"
    using less by (simp add: word_less_nat_alt)
  moreover have "unat newSegmentsInSplit < 2 ^ 64"
    using unsigned_less [of newSegmentsInSplit] by simp
  ultimately have "unat whichSegment + unat (1::size_t) < 2 ^ LENGTH(64)" by simp
  then have "unat (whichSegment + 1) = unat whichSegment + unat (1::size_t)"
    by (simp only: unat_add_lem)
  then have "unat newSegmentsInSplit - unat (whichSegment + 1)
               < unat newSegmentsInSplit - unat whichSegment"
    using below by simp
  then show "((segmentSize, newSegmentsInSplit, whichSegment + 1, order @ [currentIndex],
               sides[unat currentIndex := (currentIndex - segmentSize, currentIndex + segmentSize)]),
              (segmentSize, newSegmentsInSplit, whichSegment, order, sides))
             \<in> measure (\<lambda>(segmentSize, newSegmentsInSplit, whichSegment, plan).
                            unat newSegmentsInSplit - unat whichSegment)"
    by simp
qed

text \<open>The outer \<^verbatim>\<open>for\<close> loop over \<^verbatim>\<open>splitCount\<close>.\<close>

function splitLoop ::
  "size_t \<Rightarrow> size_t \<Rightarrow> size_t \<Rightarrow> size_t \<Rightarrow> size_t list \<times> (size_t \<times> size_t) list
     \<Rightarrow> undefinedBehaviour + size_t list \<times> (size_t \<times> size_t) list" where
  "splitLoop numberOfSplits splitCount segmentSize newSegmentsInSplit plan =
     (if splitCount < numberOfSplits then
        (case segmentLoop (segmentSize div 2) newSegmentsInSplit 0 plan of
           Inl stopped \<Rightarrow> Inl stopped
         | Inr plan' \<Rightarrow>
             splitLoop numberOfSplits (splitCount + 1) (segmentSize div 2)
               (newSegmentsInSplit * 2) plan')
      else Inr plan)"
  by pat_completeness auto
termination
proof (relation "measure (\<lambda>(numberOfSplits, splitCount, segmentSize, newSegmentsInSplit, plan).
                            unat numberOfSplits - unat splitCount)")
  show "wf (measure (\<lambda>(numberOfSplits, splitCount, segmentSize, newSegmentsInSplit, plan).
                            unat numberOfSplits - unat splitCount))"
    by simp
next
  fix numberOfSplits splitCount segmentSize newSegmentsInSplit :: size_t
    and plan plan' :: "size_t list \<times> (size_t \<times> size_t) list"
  assume less: "splitCount < numberOfSplits"
  have below: "unat splitCount < unat numberOfSplits"
    using less by (simp add: word_less_nat_alt)
  moreover have "unat numberOfSplits < 2 ^ 64"
    using unsigned_less [of numberOfSplits] by simp
  ultimately have "unat splitCount + unat (1::size_t) < 2 ^ LENGTH(64)" by simp
  then have "unat (splitCount + 1) = unat splitCount + unat (1::size_t)"
    by (simp only: unat_add_lem)
  then have "unat numberOfSplits - unat (splitCount + 1) < unat numberOfSplits - unat splitCount"
    using below by simp
  then show "((numberOfSplits, splitCount + 1, segmentSize div 2, newSegmentsInSplit * 2, plan'),
              (numberOfSplits, splitCount, segmentSize, newSegmentsInSplit, plan))
             \<in> measure (\<lambda>(numberOfSplits, splitCount, segmentSize, newSegmentsInSplit, plan).
                            unat numberOfSplits - unat splitCount)"
    by simp
qed

declare segmentLoop.simps [simp del] splitLoop.simps [simp del]

definition NodesOnBisectingPlanes_constructor ::
  "size_t \<Rightarrow> size_t \<Rightarrow> (undefinedBehaviour + NodesOnBisectingPlanes) option" where
  "NodesOnBisectingPlanes_constructor fieldCount requested =
     (case doublingLoop requested 1 0 of
        None \<Rightarrow> None
      | Some (nodes, numberOfSplits) \<Rightarrow>
          (let intermediate = nodes - 1;
               size = intermediate + 2
           in case splitLoop numberOfSplits 0 (size - 1) 1
                     ([], replicate (unat size) (0, 0)) of
                Inl stopped \<Rightarrow> Some (Inl stopped)
              | Inr (order, sides) \<Rightarrow>
                  Some (Inr \<lparr>numberOfFields = fieldCount,
                             numberOfIntermediateNodes = intermediate,
                             pathNodesSize = size,
                             adjustmentOrder = order,
                             sideNodeIndices = sides\<rparr>)))"

text \<open>
  Lines 24 to 31 on their own: what \<^verbatim>\<open>this->numberOfIntermediateNodes\<close> holds after
  the decrement of line 31, before anything is allocated; \<open>None\<close> when the loop does
  not end and line 31 is never reached.
\<close>

definition intermediateNodesSet :: "size_t \<Rightarrow> size_t option" where
  "intermediateNodesSet requested =
     (case doublingLoop requested 1 0 of
        None \<Rightarrow> None
      | Some (nodes, numberOfSplits) \<Rightarrow> Some (nodes - 1))"

text \<open>
  When the node at position \<open>p\<close> of the adjustment order is set, its side nodes must
  be known: each is the false vacuum (index 0), the true vacuum (the last index) or a
  node set at an earlier position. The pair recorded for index \<open>i\<close> lies at equal
  distance on either side of \<open>i\<close>.
\<close>

definition placedBefore :: "size_t \<Rightarrow> size_t list \<Rightarrow> nat \<Rightarrow> size_t \<Rightarrow> bool" where
  "placedBefore lastIndex order p i \<longleftrightarrow> i = 0 \<or> i = lastIndex \<or> i \<in> set (take p order)"

definition neighboursPlaced ::
  "size_t \<Rightarrow> size_t list \<Rightarrow> (size_t \<times> size_t) list \<Rightarrow> nat \<Rightarrow> bool" where
  "neighboursPlaced lastIndex order sides p =
     (case sides ! unat (order ! p) of
        (a, b) \<Rightarrow> a < order ! p \<and> order ! p < b \<and> order ! p - a = b - order ! p
                  \<and> placedBefore lastIndex order p a \<and> placedBefore lastIndex order p b)"

text \<open>
  The invariant of the two loops, for \<open>2 ^ K - 1\<close> intermediate nodes: the side table has
  \<open>2 ^ K + 1\<close> entries, the indices set so far are the set \<open>S\<close>, and every one of them
  had its side nodes placed before it. Before a split with segment size \<open>2 ^ (d - 1)\<close> the
  set is \<open>multiples K d\<close>; within the split the odd multiples of the segment size join
  one by one.
\<close>

definition multiples :: "nat \<Rightarrow> nat \<Rightarrow> nat set" where
  "multiples K d = {m. 0 < m \<and> m < 2 ^ K \<and> 2 ^ d dvd m}"

definition oddMultiples :: "nat \<Rightarrow> nat \<Rightarrow> nat set" where
  "oddMultiples d w = {m. \<exists>j<w. m = 2 ^ (d - 1) * (2 * j + 1)}"

definition planInv :: "nat \<Rightarrow> nat set \<Rightarrow> size_t list \<Rightarrow> (size_t \<times> size_t) list \<Rightarrow> bool" where
  "planInv K S order sides \<longleftrightarrow>
     length sides = 2 ^ K + 1 \<and> unat ` set order = S
     \<and> (\<forall>p<length order. neighboursPlaced (2 ^ K) order sides p)"

section \<open>NodesOnBisectingPlanes::UpdateRotationMatrix\<close>

text \<open>
  The function works on one matrix, \<^verbatim>\<open>rotationMatrices[ nodeIndex ]\<close>, and on the two
  side nodes that \<^verbatim>\<open>FalseSideNode\<close> and \<^verbatim>\<open>TrueSideNode\<close> return, which are its
  arguments here, as are \<^verbatim>\<open>numberOfFields\<close> (here \<open>fieldCount\<close>) and
  \<^verbatim>\<open>referenceField\<close>, members of the base class. A matrix is the function from row
  and column to coefficient. All loop counters stay below \<^verbatim>\<open>numberOfFields\<close>, so they
  are natural numbers; the model is meant for at least one field (with none,
  \<^verbatim>\<open>numberOfFields - 1\<close> wraps around in the code). Each \<^verbatim>\<open>for\<close> loop is one
  function, named after what it writes. Division by zero, which the code meets when a
  component of the difference is zero, is outside the model.
\<close>

type_synonym matrix = "nat \<Rightarrow> nat \<Rightarrow> real"

definition setCoeff :: "matrix \<Rightarrow> nat \<Rightarrow> nat \<Rightarrow> real \<Rightarrow> matrix" where
  "setCoeff m rowIndex columnIndex x = m(rowIndex := (m rowIndex)(columnIndex := x))"

function firstRowFor :: "nat \<Rightarrow> real \<Rightarrow> nat \<Rightarrow> matrix \<Rightarrow> matrix" where
  "firstRowFor fieldCount firstDifference columnIndex rotationMatrix =
     (if columnIndex < fieldCount then
        firstRowFor fieldCount firstDifference (columnIndex + 1)
          (setCoeff rotationMatrix 0 columnIndex firstDifference)
      else rotationMatrix)"
  by pat_completeness auto
termination
  by (relation "measure (\<lambda>(n, d, c, m). n - c)") auto

function referenceColumnFor ::
  "nat \<Rightarrow> nat \<Rightarrow> real list \<Rightarrow> real list \<Rightarrow> nat \<Rightarrow> matrix \<Rightarrow> matrix" where
  "referenceColumnFor fieldCount referenceField startNode endNode rowIndex rotationMatrix =
     (if rowIndex < fieldCount then
        referenceColumnFor fieldCount referenceField startNode endNode (rowIndex + 1)
          (setCoeff rotationMatrix rowIndex referenceField
             (endNode ! rowIndex - startNode ! rowIndex))
      else rotationMatrix)"
  by pat_completeness auto
termination
  by (relation "measure (\<lambda>(n, r, s, e, i, m). n - i)") auto

function scaledRowsFor :: "nat \<Rightarrow> nat \<Rightarrow> nat \<Rightarrow> real \<Rightarrow> nat \<Rightarrow> matrix \<Rightarrow> matrix" where
  "scaledRowsFor columnIndex columnInsertionIndex referenceField inverseEuclideanLength
       rowIndex rotationMatrix =
     (if rowIndex \<le> columnIndex then
        scaledRowsFor columnIndex columnInsertionIndex referenceField inverseEuclideanLength
          (rowIndex + 1)
          (setCoeff rotationMatrix rowIndex columnInsertionIndex
             (rotationMatrix rowIndex referenceField * inverseEuclideanLength))
      else rotationMatrix)"
  by pat_completeness auto
termination
  by (relation "measure (\<lambda>(c, ci, r, l, i, m). Suc c - i)") auto

function zeroRowsFor :: "nat \<Rightarrow> nat \<Rightarrow> nat \<Rightarrow> matrix \<Rightarrow> matrix" where
  "zeroRowsFor fieldCount columnInsertionIndex rowIndex rotationMatrix =
     (if rowIndex < fieldCount then
        zeroRowsFor fieldCount columnInsertionIndex (rowIndex + 1)
          (setCoeff rotationMatrix rowIndex columnInsertionIndex 0)
      else rotationMatrix)"
  by pat_completeness auto
termination
  by (relation "measure (\<lambda>(n, ci, i, m). n - i)") auto

function columnsFor :: "nat \<Rightarrow> nat \<Rightarrow> nat \<Rightarrow> matrix \<times> real \<Rightarrow> matrix \<times> real" where
  "columnsFor fieldCount referenceField columnIndex (rotationMatrix, sumOfElementSquares) =
     (if columnIndex < fieldCount - 1 then
        (let columnInsertionIndex =
               (if columnIndex \<ge> referenceField then columnIndex + 1 else columnIndex);
             diagonalNumerator = rotationMatrix columnIndex referenceField;
             inverseNextDiagonal = 1 / rotationMatrix (columnIndex + 1) referenceField;
             sumOfElementSquares = sumOfElementSquares + diagonalNumerator * diagonalNumerator;
             inverseEuclideanLength =
               1 / sqrt (sumOfElementSquares
                          * (1 + sumOfElementSquares * inverseNextDiagonal * inverseNextDiagonal));
             rotationMatrix = scaledRowsFor columnIndex columnInsertionIndex referenceField
                                inverseEuclideanLength 1 rotationMatrix;
             rotationMatrix = setCoeff rotationMatrix (columnIndex + 1) columnInsertionIndex
                                ((- sumOfElementSquares * inverseNextDiagonal)
                                   / inverseEuclideanLength);
             rotationMatrix = zeroRowsFor fieldCount columnInsertionIndex (columnIndex + 2)
                                rotationMatrix
         in columnsFor fieldCount referenceField (columnIndex + 1)
              (rotationMatrix, sumOfElementSquares))
      else (rotationMatrix, sumOfElementSquares))"
  by pat_completeness auto
termination
  by (relation "measure (\<lambda>(n, r, c, st). n - 1 - c)") auto

function normalizeFor :: "nat \<Rightarrow> nat \<Rightarrow> real \<Rightarrow> nat \<Rightarrow> matrix \<Rightarrow> matrix" where
  "normalizeFor fieldCount referenceField inverseEuclideanLength rowIndex rotationMatrix =
     (if rowIndex < fieldCount then
        normalizeFor fieldCount referenceField inverseEuclideanLength (rowIndex + 1)
          (setCoeff rotationMatrix rowIndex referenceField
             (rotationMatrix rowIndex referenceField * inverseEuclideanLength))
      else rotationMatrix)"
  by pat_completeness auto
termination
  by (relation "measure (\<lambda>(n, r, l, i, m). n - i)") auto

declare firstRowFor.simps [simp del] referenceColumnFor.simps [simp del]
  scaledRowsFor.simps [simp del] zeroRowsFor.simps [simp del] columnsFor.simps [simp del]
  normalizeFor.simps [simp del]

definition UpdateRotationMatrix ::
  "nat \<Rightarrow> nat \<Rightarrow> real list \<Rightarrow> real list \<Rightarrow> matrix \<Rightarrow> matrix" where
  "UpdateRotationMatrix fieldCount referenceField startNode endNode rotationMatrix =
     (let firstDifference = hd endNode - last startNode;
          rotationMatrix = firstRowFor fieldCount firstDifference 0 rotationMatrix;
          rotationMatrix = referenceColumnFor fieldCount referenceField startNode endNode 1
                             rotationMatrix;
          (rotationMatrix, sumOfElementSquares) =
             columnsFor fieldCount referenceField 0 (rotationMatrix, 0);
          lastDiagonal = rotationMatrix (fieldCount - 1) referenceField;
          sumOfElementSquares = sumOfElementSquares + lastDiagonal * lastDiagonal;
          inverseEuclideanLength = 1 / sqrt sumOfElementSquares
      in normalizeFor fieldCount referenceField inverseEuclideanLength 0 rotationMatrix)"

text \<open>The dot product of two columns of a square matrix of the given size.\<close>

definition columnDot :: "nat \<Rightarrow> matrix \<Rightarrow> nat \<Rightarrow> nat \<Rightarrow> real" where
  "columnDot fieldCount m i j = (\<Sum>rowIndex\<leftarrow>[0..<fieldCount]. m rowIndex i * m rowIndex j)"

section \<open>GradientFromStartingPoints::FindMinima: one starting point\<close>

text \<open>
  For each starting point \<^verbatim>\<open>FindMinima\<close> first calls the gradient minimizer and then
  runs the \<^verbatim>\<open>while\<close> loop modelled here, before it goes on with the minimum found.
  The minimizer's \<^verbatim>\<open>operator()\<close> is a \<^verbatim>\<open>const\<close> member function: a function from the
  starting point to the minimum. Each pass of the loop builds \<^verbatim>\<open>scaledPoint\<close> afresh
  from \<^verbatim>\<open>*realSolution\<close>. The loop has no counter; the model counts the passes to be
  able to speak about them. \<open>None\<close> is the loop that never ends.
\<close>

definition minimumIsNan :: "PotentialMinimum \<Rightarrow> bool" where
  "minimumIsNan foundMinimum \<longleftrightarrow>
     isnan (FunctionValue foundMinimum) \<or> isnan (FunctionError foundMinimum)"

definition scaledStartingPoint :: "real list \<Rightarrow> real list" where
  "scaledStartingPoint realSolution = map (\<lambda>scaledField. scaledField * 0.8) realSolution"

partial_function (option) retryWhile ::
  "(real list \<Rightarrow> PotentialMinimum) \<Rightarrow> real list \<Rightarrow> PotentialMinimum \<Rightarrow> nat
     \<Rightarrow> (PotentialMinimum \<times> nat) option" where
  "retryWhile gradientMinimizer realSolution foundMinimum retries =
     (if minimumIsNan foundMinimum then
        retryWhile gradientMinimizer realSolution
          (gradientMinimizer (scaledStartingPoint realSolution)) (retries + 1)
      else Some (foundMinimum, retries))"

declare retryWhile.simps [code]

definition FindMinima_fromStartingPoint ::
  "(real list \<Rightarrow> PotentialMinimum) \<Rightarrow> real list \<Rightarrow> (PotentialMinimum \<times> nat) option" where
  "FindMinima_fromStartingPoint gradientMinimizer realSolution =
     retryWhile gradientMinimizer realSolution (gradientMinimizer realSolution) 0"

section \<open>Example inputs\<close>

text \<open>
  A potential of one field, \<open>V(x) = x\<^sup>2 (x - 1)\<close>, at every temperature: \<open>V(0) = 0\<close>
  and \<open>V(2/3) = - 4/27\<close>. The stub solver returns a fixed bounce action, the vacuum
  counts as persisting below 3 GeV, and the stub thermal calculation reports a survival
  probability of one quarter.
\<close>

definition toyPotential :: PotentialFunction where
  "toyPotential =
     \<lparr>energyDensity = (\<lambda>fieldConfiguration temperatureValue.
          case fieldConfiguration of [x] \<Rightarrow> x * x * (x - 1) | _ \<Rightarrow> 0),
      ScaleSquaredRelevantToTunneling = (\<lambda>falseVacuum trueVacuum. 1),
      FieldConfigurationAsMathematica = (\<lambda>fieldConfiguration. ''{ x }''),
      FieldValuesOrigin = [0]\<rparr>"

definition vacuumAt :: "real \<Rightarrow> PotentialMinimum" where
  "vacuumAt x = \<lparr>FieldConfiguration = [x], FunctionValue = Number (x * x * (x - 1)),
                 FunctionError = Number 0\<rparr>"

definition stubVirtuals :: "real \<Rightarrow> Virtuals" where
  "stubVirtuals action =
     \<lparr>BounceAction = (\<lambda>potentialFunction falseVacuum trueVacuum temperature. action),
      BelowCriticalTemperature = (\<lambda>potentialFunction temperature vacuum. temperature < 3),
      PrepareCommonExtras = (\<lambda>potentialFunction t. t),
      SetUpMaximumTemperatureRanges =
        (\<lambda>potentialFunction falseVacuum trueVacuum potentialAtOrigin t. t),
      ContinueThermalTunneling =
        (\<lambda>potentialFunction falseVacuum trueVacuum potentialAtOrigin t.
           t\<lparr>thermalSurvivalProbability := 1 / 4\<rparr>)\<rparr>"


text \<open>A tunneler that still holds the results of an earlier calculation.\<close>

definition exampleTunneler :: "TunnelingStrategy \<Rightarrow> BounceActionTunneler" where
  "exampleTunneler strategy =
     \<lparr>tunnelingStrategy = strategy,
      survivalProbabilityThreshold = 1 / 100,
      temperatureAccuracy = 1,
      vacuumSeparationFractionSquared = 1 / 25,
      quantumSurvivalProbability = 1 / 2,
      quantumLifetimeInSeconds = 10,
      thermalSurvivalProbability = 1 / 3,
      partialThermalDecayWidth = 7,
      dominantTemperatureInGigaElectronVolts = 100,
      logOfMinusLogOfQuantumProbability = 0,
      logOfMinusLogOfThermalProbability = 0\<rparr>"

definition exampleRun :: "TunnelingStrategy \<Rightarrow> run" where
  "exampleRun strategy =
     \<lparr>tunneler = exampleTunneler strategy, warnings = [], calculations = []\<rparr>"

text \<open>A minimizer that never answers with a number, whatever point it starts from.\<close>

definition nanMinimum :: "real list \<Rightarrow> PotentialMinimum" where
  "nanMinimum p = \<lparr>FieldConfiguration = p, FunctionValue = NaN, FunctionError = NaN\<rparr>"

section \<open>The run of a calculation\<close>

lemma calculations_onTunneler [simp]: "calculations (onTunneler f r) = calculations r"
  by (simp add: onTunneler_def)

lemma calculations_LogWarning [simp]: "calculations (LogWarning m r) = calculations r"
  by (simp add: LogWarning_def)

lemma calculations_entered [simp]: "calculations (entered c r) = calculations r @ [c]"
  by (simp add: entered_def)

lemma warnings_onTunneler [simp]: "warnings (onTunneler f r) = warnings r"
  by (simp add: onTunneler_def)

lemma warnings_LogWarning [simp]: "warnings (LogWarning m r) = warnings r @ [m]"
  by (simp add: LogWarning_def)

lemma warnings_entered [simp]: "warnings (entered c r) = warnings r"
  by (simp add: entered_def)

lemma tunneler_onTunneler [simp]: "tunneler (onTunneler f r) = f (tunneler r)"
  by (simp add: onTunneler_def)

lemma tunneler_LogWarning [simp]: "tunneler (LogWarning m r) = tunneler r"
  by (simp add: LogWarning_def)

lemma tunneler_entered [simp]: "tunneler (entered c r) = tunneler r"
  by (simp add: entered_def)

lemma tunnelingStrategy_notCalculated [simp]:
  "tunnelingStrategy (notCalculated t) = tunnelingStrategy t"
  by (simp add: notCalculated_def)

lemma calculations_CalculateQuantumTunneling:
  "calculations (CalculateQuantumTunneling v pf fv tv r) = calculations r @ [Quantum]"
  by (simp add: CalculateQuantumTunneling_def Let_def)

lemma calculations_CalculateThermalTunneling:
  "calculations (CalculateThermalTunneling v pf fv tv r) = calculations r @ [Thermal]"
  by (simp add: CalculateThermalTunneling_def Let_def)

lemma maximumPowerOfNaturalExponent_pos: "0 < maximumPowerOfNaturalExponent"
proof -
  have "(1::real) < 0.5 * ((2 ^ 53 - 1) * 2 ^ 971)" by simp
  then show ?thesis unfolding maximumPowerOfNaturalExponent_def DBL_MAX_def
    by (simp only: ln_gt_zero)
qed

lemma maximumPowerOfNaturalExponent_le: "maximumPowerOfNaturalExponent \<le> 1023"
proof -
  have "(2::real) \<le> exp 1" using exp_ge_add_one_self [of 1] by simp
  then have "(2::real) ^ 1023 \<le> exp 1 ^ 1023" by (rule power_mono) simp
  also have "exp (1::real) ^ 1023 = exp 1023" using exp_of_nat_mult [of 1023 "1::real"] by simp
  finally have a: "(2::real) ^ 1023 \<le> exp 1023" .
  have "0.5 * DBL_MAX \<le> (2::real) ^ 1023" unfolding DBL_MAX_def by simp
  with a have "0.5 * DBL_MAX \<le> exp 1023" by linarith
  moreover have "0 < 0.5 * DBL_MAX" unfolding DBL_MAX_def by simp
  ultimately have "ln (0.5 * DBL_MAX) \<le> ln (exp (1023::real))"
    by (simp only: ln_le_cancel_iff exp_gt_zero)
  then show ?thesis unfolding maximumPowerOfNaturalExponent_def by simp
qed

lemma quantum_one_above_bound:
  "BounceAction v pf fv tv 0 \<ge> maximumPowerOfNaturalExponent \<Longrightarrow>
   quantumSurvivalProbability (tunneler (CalculateQuantumTunneling v pf fv tv r)) = 1"
  by (simp add: CalculateQuantumTunneling_def Let_def)

lemma threshold_CalculateQuantumTunneling:
  "survivalProbabilityThreshold (tunneler (CalculateQuantumTunneling v pf fv tv r))
     = survivalProbabilityThreshold (tunneler r)"
  by (simp add: CalculateQuantumTunneling_def Let_def)

lemma toy_downhill:
  "energyDensity toyPotential (FieldConfiguration (vacuumAt (2 / 3))) 0
     < energyDensity toyPotential (FieldConfiguration (vacuumAt 0)) 0"
  by (simp add: toyPotential_def vacuumAt_def)

section \<open>The claims about CalculateTunneling\<close>

text \<open>
  Claim C1. Whatever the potential and the two minima: when the potential at the claimed
  true vacuum is not strictly below the potential at the claimed false vacuum,
  \<^verbatim>\<open>CalculateTunneling\<close> throws the runtime error, and the run is as it was before the
  call: no calculation was entered, nothing was logged and the object is unchanged.
\<close>

theorem CalculateTunneling_throws_unless_deeper:
  assumes "\<not> (energyDensity potentialFunction (FieldConfiguration trueVacuum) 0
               < energyDensity potentialFunction (FieldConfiguration falseVacuum) 0)"
  shows "CalculateTunneling v potentialFunction falseVacuum trueVacuum r
           = (Inl (RuntimeError (notDeeperMessage potentialFunction falseVacuum trueVacuum)), r)"
  using assms by (simp add: CalculateTunneling_def)

theorem CalculateTunneling_throws_unless_deeper_witness:
  "\<not> (energyDensity toyPotential (FieldConfiguration (vacuumAt 0)) 0
        < energyDensity toyPotential (FieldConfiguration (vacuumAt (2 / 3))) 0)
   \<and> CalculateTunneling (stubVirtuals 50) toyPotential (vacuumAt (2 / 3)) (vacuumAt 0)
         (exampleRun JustQuantum)
       = (Inl (RuntimeError (notDeeperMessage toyPotential (vacuumAt (2 / 3)) (vacuumAt 0))),
          exampleRun JustQuantum)
   \<and> calculations (snd (CalculateTunneling (stubVirtuals 50) toyPotential (vacuumAt (2 / 3))
         (vacuumAt 0) (exampleRun JustQuantum))) = []"
proof -
  have uphill: "\<not> (energyDensity toyPotential (FieldConfiguration (vacuumAt 0)) 0
        < energyDensity toyPotential (FieldConfiguration (vacuumAt (2 / 3))) 0)"
    by (simp add: toyPotential_def vacuumAt_def)
  from CalculateTunneling_throws_unless_deeper [OF uphill, of "stubVirtuals 50" "exampleRun JustQuantum"]
  show ?thesis using uphill by (simp add: exampleRun_def)
qed

text \<open>
  Claim C10. If \<^verbatim>\<open>CalculateTunneling\<close> throws, the five stored results are what they
  were before the call.
\<close>

theorem CalculateTunneling_throw_keeps_results:
  assumes "fst (CalculateTunneling v potentialFunction falseVacuum trueVacuum r) = Inl e"
  shows "quantumSurvivalProbability
           (tunneler (snd (CalculateTunneling v potentialFunction falseVacuum trueVacuum r)))
           = quantumSurvivalProbability (tunneler r)
       \<and> quantumLifetimeInSeconds
           (tunneler (snd (CalculateTunneling v potentialFunction falseVacuum trueVacuum r)))
           = quantumLifetimeInSeconds (tunneler r)
       \<and> thermalSurvivalProbability
           (tunneler (snd (CalculateTunneling v potentialFunction falseVacuum trueVacuum r)))
           = thermalSurvivalProbability (tunneler r)
       \<and> partialThermalDecayWidth
           (tunneler (snd (CalculateTunneling v potentialFunction falseVacuum trueVacuum r)))
           = partialThermalDecayWidth (tunneler r)
       \<and> dominantTemperatureInGigaElectronVolts
           (tunneler (snd (CalculateTunneling v potentialFunction falseVacuum trueVacuum r)))
           = dominantTemperatureInGigaElectronVolts (tunneler r)"
proof -
  have "snd (CalculateTunneling v potentialFunction falseVacuum trueVacuum r) = r"
    using assms by (simp add: CalculateTunneling_def Let_def split: if_splits)
  then show ?thesis by simp
qed

theorem CalculateTunneling_throw_keeps_results_witness:
  "fst (CalculateTunneling (stubVirtuals 50) toyPotential (vacuumAt (2 / 3)) (vacuumAt 0)
         (exampleRun QuantumThenThermal))
     = Inl (RuntimeError (notDeeperMessage toyPotential (vacuumAt (2 / 3)) (vacuumAt 0)))
   \<and> quantumSurvivalProbability (tunneler (snd (CalculateTunneling (stubVirtuals 50) toyPotential
         (vacuumAt (2 / 3)) (vacuumAt 0) (exampleRun QuantumThenThermal)))) = 1 / 2
   \<and> quantumLifetimeInSeconds (tunneler (snd (CalculateTunneling (stubVirtuals 50) toyPotential
         (vacuumAt (2 / 3)) (vacuumAt 0) (exampleRun QuantumThenThermal)))) = 10
   \<and> thermalSurvivalProbability (tunneler (snd (CalculateTunneling (stubVirtuals 50) toyPotential
         (vacuumAt (2 / 3)) (vacuumAt 0) (exampleRun QuantumThenThermal)))) = 1 / 3
   \<and> partialThermalDecayWidth (tunneler (snd (CalculateTunneling (stubVirtuals 50) toyPotential
         (vacuumAt (2 / 3)) (vacuumAt 0) (exampleRun QuantumThenThermal)))) = 7
   \<and> dominantTemperatureInGigaElectronVolts (tunneler (snd (CalculateTunneling (stubVirtuals 50)
         toyPotential (vacuumAt (2 / 3)) (vacuumAt 0) (exampleRun QuantumThenThermal)))) = 100"
proof -
  have thrown: "fst (CalculateTunneling (stubVirtuals 50) toyPotential (vacuumAt (2 / 3))
         (vacuumAt 0) (exampleRun QuantumThenThermal))
     = Inl (RuntimeError (notDeeperMessage toyPotential (vacuumAt (2 / 3)) (vacuumAt 0)))"
    by (simp add: CalculateTunneling_def toyPotential_def vacuumAt_def)
  from CalculateTunneling_throw_keeps_results [OF thrown]
  show ?thesis using thrown by (simp add: exampleRun_def exampleTunneler_def)
qed

text \<open>
  Claim C7. Let the true vacuum be deeper than the false one and let
  \<^verbatim>\<open>PrepareCommonExtras\<close> leave the strategy alone. Under \<^verbatim>\<open>QuantumThenThermal\<close> the
  call enters the quantum calculation and then the thermal one exactly if the quantum
  survival probability just computed is above the threshold; under
  \<^verbatim>\<open>ThermalThenQuantum\<close> it enters the thermal calculation and then the quantum one
  exactly if the thermal survival probability just computed is above the threshold.
\<close>

theorem second_calculation_iff_above_threshold:
  assumes "energyDensity potentialFunction (FieldConfiguration trueVacuum) 0
             < energyDensity potentialFunction (FieldConfiguration falseVacuum) 0"
    and "\<forall>t. tunnelingStrategy (PrepareCommonExtras v potentialFunction t) = tunnelingStrategy t"
  shows "(tunnelingStrategy (tunneler r) = QuantumThenThermal \<longrightarrow>
          (let afterQuantum = CalculateQuantumTunneling v potentialFunction falseVacuum trueVacuum
                 (onTunneler (PrepareCommonExtras v potentialFunction)
                    (onTunneler notCalculated r))
           in calculations (snd (CalculateTunneling v potentialFunction falseVacuum trueVacuum r))
                = calculations r @
                    (if quantumSurvivalProbability (tunneler afterQuantum)
                          > survivalProbabilityThreshold (tunneler afterQuantum)
                     then [Quantum, Thermal] else [Quantum])))
       \<and> (tunnelingStrategy (tunneler r) = ThermalThenQuantum \<longrightarrow>
          (let afterThermal = CalculateThermalTunneling v potentialFunction falseVacuum trueVacuum
                 (onTunneler (PrepareCommonExtras v potentialFunction)
                    (onTunneler notCalculated r))
           in calculations (snd (CalculateTunneling v potentialFunction falseVacuum trueVacuum r))
                = calculations r @
                    (if thermalSurvivalProbability (tunneler afterThermal)
                          > survivalProbabilityThreshold (tunneler afterThermal)
                     then [Thermal, Quantum] else [Thermal])))"
  using assms
  by (simp add: CalculateTunneling_def Let_def calculations_CalculateQuantumTunneling
        calculations_CalculateThermalTunneling)

theorem second_calculation_iff_above_threshold_witness:
  "energyDensity toyPotential (FieldConfiguration (vacuumAt (2 / 3))) 0
     < energyDensity toyPotential (FieldConfiguration (vacuumAt 0)) 0
   \<and> (\<forall>t. tunnelingStrategy (PrepareCommonExtras (stubVirtuals 1023) toyPotential t)
            = tunnelingStrategy t)
   \<and> tunnelingStrategy (tunneler (exampleRun QuantumThenThermal)) = QuantumThenThermal
   \<and> calculations (snd (CalculateTunneling (stubVirtuals 1023) toyPotential (vacuumAt 0)
         (vacuumAt (2 / 3)) (exampleRun QuantumThenThermal))) = [Quantum, Thermal]"
proof -
  have keeps: "\<forall>t. tunnelingStrategy (PrepareCommonExtras (stubVirtuals 1023) toyPotential t)
            = tunnelingStrategy t"
    by (simp add: stubVirtuals_def)
  have strategy: "tunnelingStrategy (tunneler (exampleRun QuantumThenThermal)) = QuantumThenThermal"
    by (simp add: exampleRun_def exampleTunneler_def)
  let ?prepared = "onTunneler (PrepareCommonExtras (stubVirtuals 1023) toyPotential)
                     (onTunneler notCalculated (exampleRun QuantumThenThermal))"
  have "BounceAction (stubVirtuals 1023) toyPotential (vacuumAt 0) (vacuumAt (2 / 3)) 0
          \<ge> maximumPowerOfNaturalExponent"
    using maximumPowerOfNaturalExponent_le by (simp add: stubVirtuals_def)
  then have one: "quantumSurvivalProbability (tunneler (CalculateQuantumTunneling
      (stubVirtuals 1023) toyPotential (vacuumAt 0) (vacuumAt (2 / 3)) ?prepared)) = 1"
    by (rule quantum_one_above_bound)
  have threshold: "survivalProbabilityThreshold (tunneler (CalculateQuantumTunneling
      (stubVirtuals 1023) toyPotential (vacuumAt 0) (vacuumAt (2 / 3)) ?prepared)) = 1 / 100"
    by (simp add: threshold_CalculateQuantumTunneling stubVirtuals_def notCalculated_def
          exampleRun_def exampleTunneler_def)
  have none: "calculations (exampleRun QuantumThenThermal) = []"
    by (simp add: exampleRun_def)
  from second_calculation_iff_above_threshold [OF toy_downhill keeps,
      of "exampleRun QuantumThenThermal"] strategy
  have "calculations (snd (CalculateTunneling (stubVirtuals 1023) toyPotential (vacuumAt 0)
         (vacuumAt (2 / 3)) (exampleRun QuantumThenThermal))) = [Quantum, Thermal]"
    by (simp only: Let_def one threshold none) simp
  then show ?thesis using toy_downhill keeps strategy by simp
qed

section \<open>The claim about saturation\<close>

text \<open>
  Claim C2. With the bound \<open>ln (DBL_MAX / 2)\<close>: an action at or above the bound gives a
  quantum survival probability of exactly 1 and a lifetime of \<open>10\<^sup>1\<^sup>0\<^sup>0\<close> seconds, an
  action at or below minus the bound gives a probability of exactly 0, and each logs one
  warning. On the thermal path \<^verbatim>\<open>SetThermalSurvivalProbability\<close> does the same on
  \<^verbatim>\<open>logOfMinusLogOfThermalProbability\<close>, which is the logarithm of the decay exponent:
  at or above the bound the probability is exactly 0, at or below minus the bound it is
  exactly 1, with one warning each. Both functions return a run in every case; they
  have no throw.
\<close>

theorem saturation_at_exponent_bound:
  "(BounceAction v potentialFunction falseVacuum trueVacuum 0 \<ge> maximumPowerOfNaturalExponent \<longrightarrow>
      quantumSurvivalProbability
        (tunneler (CalculateQuantumTunneling v potentialFunction falseVacuum trueVacuum r)) = 1
    \<and> quantumLifetimeInSeconds
        (tunneler (CalculateQuantumTunneling v potentialFunction falseVacuum trueVacuum r))
          = 10 ^ 100
    \<and> length (warnings (CalculateQuantumTunneling v potentialFunction falseVacuum trueVacuum r))
          = length (warnings r) + 1)
 \<and> (BounceAction v potentialFunction falseVacuum trueVacuum 0
        \<le> - maximumPowerOfNaturalExponent \<longrightarrow>
      quantumSurvivalProbability
        (tunneler (CalculateQuantumTunneling v potentialFunction falseVacuum trueVacuum r)) = 0
    \<and> length (warnings (CalculateQuantumTunneling v potentialFunction falseVacuum trueVacuum r))
          = length (warnings r) + 1)
 \<and> (logOfMinusLogOfThermalProbability (tunneler r) \<ge> maximumPowerOfNaturalExponent \<longrightarrow>
      thermalSurvivalProbability (tunneler (SetThermalSurvivalProbability r)) = 0
    \<and> length (warnings (SetThermalSurvivalProbability r)) = length (warnings r) + 1)
 \<and> (logOfMinusLogOfThermalProbability (tunneler r) \<le> - maximumPowerOfNaturalExponent \<longrightarrow>
      thermalSurvivalProbability (tunneler (SetThermalSurvivalProbability r)) = 1
    \<and> length (warnings (SetThermalSurvivalProbability r)) = length (warnings r) + 1)"
  using maximumPowerOfNaturalExponent_pos
  by (simp add: CalculateQuantumTunneling_def SetThermalSurvivalProbability_def Let_def)

theorem saturation_at_exponent_bound_witness:
  "BounceAction (stubVirtuals 1023) toyPotential (vacuumAt 0) (vacuumAt (2 / 3)) 0
     \<ge> maximumPowerOfNaturalExponent
   \<and> quantumSurvivalProbability (tunneler (CalculateQuantumTunneling (stubVirtuals 1023)
         toyPotential (vacuumAt 0) (vacuumAt (2 / 3)) (exampleRun JustQuantum))) = 1
   \<and> quantumLifetimeInSeconds (tunneler (CalculateQuantumTunneling (stubVirtuals 1023)
         toyPotential (vacuumAt 0) (vacuumAt (2 / 3)) (exampleRun JustQuantum))) = 10 ^ 100
   \<and> length (warnings (CalculateQuantumTunneling (stubVirtuals 1023)
         toyPotential (vacuumAt 0) (vacuumAt (2 / 3)) (exampleRun JustQuantum))) = 1
   \<and> BounceAction (stubVirtuals (- 1023)) toyPotential (vacuumAt 0) (vacuumAt (2 / 3)) 0
     \<le> - maximumPowerOfNaturalExponent
   \<and> quantumSurvivalProbability (tunneler (CalculateQuantumTunneling (stubVirtuals (- 1023))
         toyPotential (vacuumAt 0) (vacuumAt (2 / 3)) (exampleRun JustQuantum))) = 0
   \<and> length (warnings (CalculateQuantumTunneling (stubVirtuals (- 1023))
         toyPotential (vacuumAt 0) (vacuumAt (2 / 3)) (exampleRun JustQuantum))) = 1
   \<and> logOfMinusLogOfThermalProbability (tunneler (onTunneler
         (\<lambda>t. t\<lparr>logOfMinusLogOfThermalProbability := 1023\<rparr>) (exampleRun JustThermal)))
     \<ge> maximumPowerOfNaturalExponent
   \<and> thermalSurvivalProbability (tunneler (SetThermalSurvivalProbability (onTunneler
         (\<lambda>t. t\<lparr>logOfMinusLogOfThermalProbability := 1023\<rparr>) (exampleRun JustThermal)))) = 0
   \<and> logOfMinusLogOfThermalProbability (tunneler (onTunneler
         (\<lambda>t. t\<lparr>logOfMinusLogOfThermalProbability := - 1023\<rparr>) (exampleRun JustThermal)))
     \<le> - maximumPowerOfNaturalExponent
   \<and> thermalSurvivalProbability (tunneler (SetThermalSurvivalProbability (onTunneler
         (\<lambda>t. t\<lparr>logOfMinusLogOfThermalProbability := - 1023\<rparr>) (exampleRun JustThermal)))) = 1"
proof -
  have high: "BounceAction (stubVirtuals 1023) toyPotential (vacuumAt 0) (vacuumAt (2 / 3)) 0
     \<ge> maximumPowerOfNaturalExponent"
    using maximumPowerOfNaturalExponent_le by (simp add: stubVirtuals_def)
  have low: "BounceAction (stubVirtuals (- 1023)) toyPotential (vacuumAt 0) (vacuumAt (2 / 3)) 0
     \<le> - maximumPowerOfNaturalExponent"
    using maximumPowerOfNaturalExponent_le by (simp add: stubVirtuals_def)
  have thermalHigh: "logOfMinusLogOfThermalProbability (tunneler (onTunneler
         (\<lambda>t. t\<lparr>logOfMinusLogOfThermalProbability := 1023\<rparr>) (exampleRun JustThermal)))
     \<ge> maximumPowerOfNaturalExponent"
    using maximumPowerOfNaturalExponent_le by simp
  have thermalLow: "logOfMinusLogOfThermalProbability (tunneler (onTunneler
         (\<lambda>t. t\<lparr>logOfMinusLogOfThermalProbability := - 1023\<rparr>) (exampleRun JustThermal)))
     \<le> - maximumPowerOfNaturalExponent"
    using maximumPowerOfNaturalExponent_le by simp
  have none: "warnings (exampleRun JustQuantum) = []" by (simp add: exampleRun_def)
  show ?thesis
    using high low thermalHigh thermalLow none
      saturation_at_exponent_bound [of "stubVirtuals 1023" toyPotential "vacuumAt 0"
        "vacuumAt (2 / 3)" "exampleRun JustQuantum"]
      saturation_at_exponent_bound [of "stubVirtuals (- 1023)" toyPotential "vacuumAt 0"
        "vacuumAt (2 / 3)" "exampleRun JustQuantum"]
      saturation_at_exponent_bound [of "stubVirtuals 1023" toyPotential "vacuumAt 0"
        "vacuumAt (2 / 3)" "onTunneler
         (\<lambda>t. t\<lparr>logOfMinusLogOfThermalProbability := 1023\<rparr>) (exampleRun JustThermal)"]
      saturation_at_exponent_bound [of "stubVirtuals 1023" toyPotential "vacuumAt 0"
        "vacuumAt (2 / 3)" "onTunneler
         (\<lambda>t. t\<lparr>logOfMinusLogOfThermalProbability := - 1023\<rparr>) (exampleRun JustThermal)"]
    by simp
qed

section \<open>The temperature range\<close>

subsection \<open>Rounding to the nearest double\<close>


























subsection \<open>What the search keeps whatever the rounding\<close>






subsection \<open>The search in arithmetic that does not round\<close>










subsection \<open>A halving that runs out of doubles\<close>



subsection \<open>A range that stops shrinking\<close>





























































subsection \<open>The claim\<close>




section \<open>The node ordering\<close>

lemma unat_p2: "j < 64 \<Longrightarrow> unat ((2::size_t) ^ j) = 2 ^ j"
proof -
  assume j: "j < 64"
  have "(2::size_t) ^ j = of_nat (2 ^ j)" by simp
  then have "unat ((2::size_t) ^ j) = 2 ^ j mod 2 ^ 64" by (simp only: unat_of_nat) simp
  moreover have "(2::nat) ^ j < 2 ^ 64" using j by (simp only: power_strict_increasing_iff semiring_norm)
  ultimately show ?thesis by simp
qed

lemma p2_le_iff: "j < 64 \<Longrightarrow> ((2::size_t) ^ j \<le> n) = (2 ^ j \<le> unat n)"
  by (simp add: word_le_nat_alt unat_p2)

lemma doublingLoop_zero_aux:
  assumes "doublingLoop n N s = Some r" shows "N \<noteq> 0"
proof (rule doublingLoop.raw_induct [where P = "\<lambda>n N s r. N \<noteq> 0", OF _ assms])
  fix f :: "size_t \<Rightarrow> size_t \<Rightarrow> size_t \<Rightarrow> (size_t \<times> size_t) option"
    and requested nodes numberOfSplits :: size_t and result :: "size_t \<times> size_t"
  assume IH: "\<And>a b c r. f a b c = Some r \<Longrightarrow> b \<noteq> 0"
    and step: "(if nodes \<le> requested then f requested (nodes * 2) (numberOfSplits + 1)
                else Some (nodes, numberOfSplits)) = Some result"
  show "nodes \<noteq> 0"
  proof
    assume "nodes = 0"
    with step have "f requested 0 (numberOfSplits + 1) = Some result" by simp
    from IH [OF this] show False by simp
  qed
qed

lemma doublingLoop_zero: "doublingLoop n 0 s = None"
  using doublingLoop_zero_aux [of n 0 s] by (cases "doublingLoop n 0 s") auto

lemma doublingLoop_run:
  assumes "j \<le> k" "k < 64" "\<forall>i. j \<le> i \<and> i < k \<longrightarrow> 2 ^ i \<le> unat n" "unat n < 2 ^ k"
  shows "doublingLoop n (2 ^ j) (of_nat j) = Some (2 ^ k, of_nat k)"
  using assms
proof (induction rule: inc_induct)
  case base
  then have "\<not> (2::size_t) ^ k \<le> n" by (simp add: p2_le_iff)
  then show ?case by (subst doublingLoop.simps) simp
next
  case (step i)
  then have "(2::size_t) ^ i \<le> n" by (simp add: p2_le_iff)
  moreover have "doublingLoop n (2 ^ Suc i) (of_nat (Suc i)) = Some (2 ^ k, of_nat k)"
    using step by simp
  ultimately show ?case by (subst doublingLoop.simps) (simp add: mult.commute add.commute)
qed

lemma doublingLoop_overflow:
  assumes "2 ^ 63 \<le> unat n" "j \<le> 64"
  shows "doublingLoop n (2 ^ j) s = None"
  using assms(2)
proof (induction "64 - j" arbitrary: j s)
  case 0
  then have "j = 64" by simp
  then have z: "(2::size_t) ^ j = 0" by simp
  show ?case by (simp only: z doublingLoop_zero)
next
  case (Suc d)
  then have j: "j < 64" by simp
  then have "(2::nat) ^ j \<le> 2 ^ 63" by (simp only: power_increasing_iff)
  with assms(1) j have "(2::size_t) ^ j \<le> n" by (simp add: p2_le_iff)
  moreover have "doublingLoop n (2 ^ Suc j) (s + 1) = None"
  proof (rule Suc(1))
    show "d = 64 - Suc j" using Suc(2) by simp
    show "Suc j \<le> 64" using j by simp
  qed
  ultimately show ?case by (subst doublingLoop.simps) (simp add: mult.commute)
qed


lemma unat_of_nat_size: "m < 2 ^ 64 \<Longrightarrow> unat (of_nat m :: size_t) = m"
  by (simp add: unat_of_nat)

lemma of_nat_less_size: "a < 2 ^ 64 \<Longrightarrow> b < 2 ^ 64 \<Longrightarrow> ((of_nat a :: size_t) < of_nat b) = (a < b)"
  by (simp add: word_less_nat_alt unat_of_nat_size)

lemma p2_bound: "K \<le> 63 \<Longrightarrow> (2::nat) ^ K \<le> 2 ^ 63"
  by (simp only: power_increasing_iff semiring_norm)

lemma multiples_step:
  assumes "1 \<le> d" "d \<le> K"
  shows "multiples K d \<union> oddMultiples d (2 ^ (K - d)) = multiples K (d - 1)"
proof (intro set_eqI iffI)
  fix m assume "m \<in> multiples K d \<union> oddMultiples d (2 ^ (K - d))"
  then show "m \<in> multiples K (d - 1)"
  proof
    assume "m \<in> multiples K d"
    then have "0 < m" "m < 2 ^ K" "2 ^ d dvd m" by (auto simp: multiples_def)
    moreover have "(2::nat) ^ (d - 1) dvd 2 ^ d" by (rule le_imp_power_dvd) simp
    ultimately show ?thesis unfolding multiples_def using dvd_trans by blast
  next
    assume "m \<in> oddMultiples d (2 ^ (K - d))"
    then obtain j where j: "j < 2 ^ (K - d)" "m = 2 ^ (d - 1) * (2 * j + 1)"
      by (auto simp: oddMultiples_def)
    have "2 * j + 1 < 2 * 2 ^ (K - d)" using j(1) by simp
    then have "(2::nat) ^ (d - 1) * (2 * j + 1) < 2 ^ (d - 1) * (2 * 2 ^ (K - d))"
      by (rule mult_less_mono2) simp
    also have "(2::nat) ^ (d - 1) * (2 * 2 ^ (K - d)) = 2 ^ ((d - 1) + 1 + (K - d))"
      by (simp only: power_add) simp
    also have "(d - 1) + 1 + (K - d) = K" using assms by simp
    finally have "m < 2 ^ K" using j(2) by simp
    moreover have "0 < m" using j(2) by simp
    moreover have "2 ^ (d - 1) dvd m" using j(2) by simp
    ultimately show ?thesis by (simp add: multiples_def)
  qed
next
  fix m assume "m \<in> multiples K (d - 1)"
  then have m: "0 < m" "m < 2 ^ K" "2 ^ (d - 1) dvd m" by (auto simp: multiples_def)
  then obtain q where q: "m = 2 ^ (d - 1) * q" by (auto simp: dvd_def)
  have dd: "(2::nat) ^ d = 2 ^ (d - 1) * 2" using assms(1) by (cases d) simp_all
  show "m \<in> multiples K d \<union> oddMultiples d (2 ^ (K - d))"
  proof (cases "even q")
    case True
    then obtain q' where "q = 2 * q'" by (auto elim: evenE)
    then have "2 ^ d dvd m" using q dd by simp
    then show ?thesis using m by (simp add: multiples_def)
  next
    case False
    then obtain j where jq: "q = 2 * j + 1" by (auto elim: oddE)
    have "(2::nat) ^ K = 2 ^ (d - 1) * (2 * 2 ^ (K - d))"
    proof -
      have "(2::nat) ^ (d - 1) * (2 * 2 ^ (K - d)) = 2 ^ ((d - 1) + 1 + (K - d))"
        by (simp only: power_add) simp
      also have "(d - 1) + 1 + (K - d) = K" using assms by simp
      finally show ?thesis by simp
    qed
    with m(2) q jq have "(2::nat) ^ (d - 1) * (2 * j + 1) < 2 ^ (d - 1) * (2 * 2 ^ (K - d))" by simp
    then have "2 * j + 1 < 2 * 2 ^ (K - d)" by (simp only: mult_less_cancel1)
    then have "j < 2 ^ (K - d)" by simp
    then show ?thesis using q jq by (auto simp: oddMultiples_def)
  qed
qed


lemma p2_split: "1 \<le> d \<Longrightarrow> d \<le> K \<Longrightarrow> (2::nat) ^ (d - 1) * (2 * 2 ^ (K - d)) = 2 ^ K"
proof -
  assume a: "1 \<le> d" "d \<le> K"
  have "(2::nat) ^ (d - 1) * (2 * 2 ^ (K - d)) = 2 ^ ((d - 1) + 1 + (K - d))"
    by (simp only: power_add) simp
  also have "(d - 1) + 1 + (K - d) = K" using a by simp
  finally show ?thesis .
qed

lemma in_image_unat: "unat (a::size_t) \<in> unat ` A \<Longrightarrow> a \<in> A"
proof -
  assume "unat a \<in> unat ` A"
  then obtain x where x: "x \<in> A" "unat a = unat x" by auto
  from x(2) have "a = x" by (simp only: word_unat_eq_iff)
  with x(1) show ?thesis by simp
qed

lemma segment_step:
  assumes K: "K \<le> 63" and d: "1 \<le> d" "d \<le> K" and w: "w < 2 ^ (K - d)"
    and inv: "planInv K (multiples K d \<union> oddMultiples d w) order sides"
    and idx: "idx = (2::size_t) ^ (d - 1) * (1 + 2 * of_nat w)"
  shows "unat idx < length sides \<and>
         planInv K (multiples K d \<union> oddMultiples d (Suc w)) (order @ [idx])
           (sides[unat idx := (idx - 2 ^ (d - 1), idx + 2 ^ (d - 1))])"
proof -
  define seg :: nat where "seg = 2 ^ (d - 1)"
  define I :: nat where "I = seg * (2 * w + 1)"
  define a :: size_t where "a = idx - 2 ^ (d - 1)"
  define b :: size_t where "b = idx + 2 ^ (d - 1)"
  define S where "S = multiples K d \<union> oddMultiples d w"
  have seg_pos: "0 < seg" by (simp add: seg_def)
  have pK: "seg * (2 * 2 ^ (K - d)) = 2 ^ K" unfolding seg_def using d by (rule p2_split)
  have p2d: "(2::nat) ^ d = seg * 2" unfolding seg_def using d(1) by (cases d) simp_all
  have K64: "(2::nat) ^ K < 2 ^ 64" using p2_bound [OF K] by simp
  have "2 * w + 1 < 2 * 2 ^ (K - d)" using w by simp
  then have "seg * (2 * w + 1) < seg * (2 * 2 ^ (K - d))" using seg_pos by (rule mult_less_mono2)
  then have I_lt: "I < 2 ^ K" using pK by (simp add: I_def)
  have "2 * w + 2 \<le> 2 * 2 ^ (K - d)" using w by simp
  then have "seg * (2 * w + 2) \<le> seg * (2 * 2 ^ (K - d))" by (rule mult_le_mono2)
  moreover have Iseg: "I + seg = seg * (2 * w + 2)" by (simp add: I_def algebra_simps)
  ultimately have Iseg_le: "I + seg \<le> 2 ^ K" using pK by simp
  have seg_le: "seg \<le> I" by (simp add: I_def)
  have Imseg: "I - seg = seg * (2 * w)" by (simp add: I_def algebra_simps)
  have segw: "(2::size_t) ^ (d - 1) = of_nat seg" by (simp add: seg_def)
  have idxI: "idx = of_nat I" by (simp add: idx I_def seg_def algebra_simps)
  have "I < 2 ^ 64" using I_lt K64 by simp
  then have uidx: "unat idx = I" unfolding idxI by (rule unat_of_nat_size)
  have aI: "a = of_nat (I - seg)" unfolding a_def idxI segw using seg_le by simp
  have "I - seg < 2 ^ 64" using I_lt K64 by simp
  then have ua: "unat a = I - seg" unfolding aI by (rule unat_of_nat_size)
  have bI: "b = of_nat (I + seg)" unfolding b_def idxI segw by simp
  have "I + seg < 2 ^ 64" using Iseg_le K64 by simp
  then have ub: "unat b = I + seg" unfolding bI by (rule unat_of_nat_size)
  have len: "length sides = 2 ^ K + 1" and img: "unat ` set order = S"
    and old: "\<forall>p<length order. neighboursPlaced (2 ^ K) order sides p"
    using inv by (simp_all add: planInv_def S_def)
  have I_len: "I < length sides" using I_lt len by simp
  have I_notin: "I \<notin> S"
  proof
    assume "I \<in> S"
    then consider "2 ^ d dvd I" | j where "j < w" "I = seg * (2 * j + 1)"
      by (auto simp: S_def multiples_def oddMultiples_def seg_def)
    then show False
    proof cases
      case 1
      then have "seg * 2 dvd seg * (2 * w + 1)" by (simp add: p2d I_def)
      then have "seg = 0 \<or> 2 dvd 2 * w + 1" by (simp only: nat_mult_dvd_cancel_disj)
      then show False using seg_pos by simp
    next
      case 2
      then have "seg * (2 * j + 1) = seg * (2 * w + 1)" by (simp add: I_def)
      then have "2 * j + 1 = 2 * w + 1" using seg_pos by simp
      with 2(1) show False by simp
    qed
  qed
  have newset: "unat ` set (order @ [idx]) = multiples K d \<union> oddMultiples d (Suc w)"
  proof -
    have "oddMultiples d (Suc w) = oddMultiples d w \<union> {I}"
      by (auto simp: oddMultiples_def I_def seg_def less_Suc_eq)
    then show ?thesis using img uidx by (auto simp: S_def)
  qed
  have a_placed: "a = 0 \<or> a \<in> set order"
  proof (cases "w = 0")
    case True
    then have "unat a = 0" using ua Imseg by simp
    then show ?thesis by (simp add: unat_eq_zero)
  next
    case False
    have "2 ^ d dvd unat a" using ua Imseg p2d by simp
    moreover have "0 < unat a" using ua Imseg False seg_pos by simp
    moreover have "unat a < 2 ^ K" using ua I_lt by simp
    ultimately have "unat a \<in> S" by (simp add: S_def multiples_def)
    then show ?thesis using img in_image_unat by blast
  qed
  have b_placed: "b = 2 ^ K \<or> b \<in> set order"
  proof (cases "I + seg = 2 ^ K")
    case True
    then have "unat b = unat ((2::size_t) ^ K)" using ub K by (simp add: unat_p2)
    then show ?thesis by (simp add: word_unat_eq_iff)
  next
    case False
    have "seg * 2 dvd seg * (2 * w + 2)" by (simp add: algebra_simps)
    then have "2 ^ d dvd unat b" using ub Iseg p2d by simp
    moreover have "0 < unat b" using ub seg_pos by simp
    moreover have "unat b < 2 ^ K" using ub Iseg_le False by simp
    ultimately have "unat b \<in> S" by (simp add: S_def multiples_def)
    then show ?thesis using img in_image_unat by blast
  qed
  have a_lt: "a < idx" using ua uidx seg_pos seg_le by (simp add: word_less_nat_alt)
  have b_gt: "idx < b" using ub uidx seg_pos by (simp add: word_less_nat_alt)
  have sym: "idx - a = b - idx" by (simp add: a_def b_def)
  let ?sides = "sides[unat idx := (a, b)]"
  have new: "\<forall>p<length (order @ [idx]). neighboursPlaced (2 ^ K) (order @ [idx]) ?sides p"
  proof (intro allI impI)
    fix p assume p: "p < length (order @ [idx])"
    show "neighboursPlaced (2 ^ K) (order @ [idx]) ?sides p"
    proof (cases "p < length order")
      case True
      then have "unat (order ! p) \<in> S" using img by auto
      then have ne: "unat (order ! p) \<noteq> unat idx" using I_notin uidx by auto
      have "neighboursPlaced (2 ^ K) order sides p" using old True by simp
      then show ?thesis using True ne
        by (simp add: neighboursPlaced_def placedBefore_def nth_append)
    next
      case False
      then have pl: "p = length order" using p by simp
      show ?thesis using a_placed b_placed a_lt b_gt sym I_len uidx
        by (auto simp: neighboursPlaced_def placedBefore_def pl)
    qed
  qed
  show ?thesis using uidx I_len len newset new
    by (simp add: planInv_def a_def b_def)
qed


lemma p2_of_nat: "(2::size_t) ^ e = of_nat (2 ^ e)"
  by simp

lemma segmentLoop_inv:
  assumes K: "K \<le> 63" and d: "1 \<le> d" "d \<le> K"
  shows "w \<le> 2 ^ (K - d) \<Longrightarrow> planInv K (multiples K d \<union> oddMultiples d w) order sides \<Longrightarrow>
         \<exists>order' sides'.
           segmentLoop (2 ^ (d - 1)) (2 ^ (K - d)) (of_nat w) (order, sides) = Inr (order', sides')
           \<and> planInv K (multiples K (d - 1)) order' sides'"
proof (induction "2 ^ (K - d) - w" arbitrary: w order sides)
  case 0
  then have w: "w = 2 ^ (K - d)" by simp
  have "\<not> (of_nat w :: size_t) < 2 ^ (K - d)" unfolding w p2_of_nat by simp
  then have "segmentLoop (2 ^ (d - 1)) (2 ^ (K - d)) (of_nat w) (order, sides) = Inr (order, sides)"
    by (subst segmentLoop.simps) simp
  moreover have "planInv K (multiples K (d - 1)) order sides"
    using 0(3) multiples_step [OF d] by (simp add: w)
  ultimately show ?case by blast
next
  case (Suc r)
  then have w: "w < 2 ^ (K - d)" by simp
  have "(2::nat) ^ (K - d) \<le> 2 ^ 63" by (rule p2_bound) (use K in simp)
  then have b: "(2::nat) ^ (K - d) < 2 ^ 64" "w < 2 ^ 64" using w by simp_all
  have lt: "(of_nat w :: size_t) < 2 ^ (K - d)"
    unfolding p2_of_nat using b w by (simp only: of_nat_less_size)
  define idx :: size_t where "idx = 2 ^ (d - 1) * (1 + 2 * of_nat w)"
  have step: "unat idx < length sides \<and>
         planInv K (multiples K d \<union> oddMultiples d (Suc w)) (order @ [idx])
           (sides[unat idx := (idx - 2 ^ (d - 1), idx + 2 ^ (d - 1))])"
    by (rule segment_step [OF K d w Suc(4) idx_def])
  have "\<exists>order' sides'.
           segmentLoop (2 ^ (d - 1)) (2 ^ (K - d)) (of_nat (Suc w))
             (order @ [idx], sides[unat idx := (idx - 2 ^ (d - 1), idx + 2 ^ (d - 1))])
             = Inr (order', sides')
           \<and> planInv K (multiples K (d - 1)) order' sides'"
  proof (rule Suc(1))
    show "r = 2 ^ (K - d) - Suc w" using Suc(2) by simp
    show "Suc w \<le> 2 ^ (K - d)" using w by simp
    show "planInv K (multiples K d \<union> oddMultiples d (Suc w)) (order @ [idx])
           (sides[unat idx := (idx - 2 ^ (d - 1), idx + 2 ^ (d - 1))])" using step by simp
  qed
  moreover have "segmentLoop (2 ^ (d - 1)) (2 ^ (K - d)) (of_nat w) (order, sides)
      = segmentLoop (2 ^ (d - 1)) (2 ^ (K - d)) (of_nat (Suc w))
             (order @ [idx], sides[unat idx := (idx - 2 ^ (d - 1), idx + 2 ^ (d - 1))])"
    using lt step by (subst segmentLoop.simps) (simp add: Let_def idx_def add.commute)
  ultimately show ?case by simp
qed

lemma p2_div2: "1 \<le> d \<Longrightarrow> d \<le> 63 \<Longrightarrow> (2::size_t) ^ d div 2 = 2 ^ (d - 1)"
proof -
  assume d: "1 \<le> d" "d \<le> 63"
  have "unat ((2::size_t) ^ d div 2) = 2 ^ d div 2" using d by (simp add: unat_div unat_p2)
  also have "\<dots> = 2 ^ (d - 1)" using d(1) by (cases d) simp_all
  also have "\<dots> = unat ((2::size_t) ^ (d - 1))" using d by (simp add: unat_p2)
  finally show ?thesis by (simp only: word_unat_eq_iff)
qed

lemma splitLoop_inv:
  assumes K: "K \<le> 63"
  shows "s \<le> K \<Longrightarrow> planInv K (multiples K (K - s)) order sides \<Longrightarrow>
         \<exists>order' sides'.
           splitLoop (of_nat K) (of_nat s) (2 ^ (K - s)) (2 ^ s) (order, sides) = Inr (order', sides')
           \<and> planInv K (multiples K 0) order' sides'"
proof (induction "K - s" arbitrary: s order sides)
  case 0
  then have s: "s = K" by simp
  have "splitLoop (of_nat K) (of_nat s) (2 ^ (K - s)) (2 ^ s) (order, sides) = Inr (order, sides)"
    unfolding s by (subst splitLoop.simps) simp
  then show ?case using 0(3) s by simp
next
  case (Suc r)
  then have s: "s < K" by simp
  define d where "d = K - s"
  have d: "1 \<le> d" "d \<le> K" "d \<le> 63" "K - d = s" using s K by (simp_all add: d_def)
  have lt: "(of_nat s :: size_t) < of_nat K" using s K by (simp add: of_nat_less_size)
  have "planInv K (multiples K d \<union> oddMultiples d 0) order sides"
    using Suc(4) by (simp add: d_def oddMultiples_def)
  from segmentLoop_inv [OF K d(1,2) _ this]
  obtain order1 sides1 where seg:
    "segmentLoop (2 ^ (d - 1)) (2 ^ s) 0 (order, sides) = Inr (order1, sides1)"
    and inv1: "planInv K (multiples K (d - 1)) order1 sides1"
    using d(4) by auto
  have "\<exists>order' sides'.
           splitLoop (of_nat K) (of_nat (Suc s)) (2 ^ (K - Suc s)) (2 ^ Suc s) (order1, sides1)
             = Inr (order', sides')
           \<and> planInv K (multiples K 0) order' sides'"
  proof (rule Suc(1))
    show "r = K - Suc s" using Suc(2) by simp
    show "Suc s \<le> K" using s by simp
    show "planInv K (multiples K (K - Suc s)) order1 sides1" using inv1 by (simp add: d_def)
  qed
  moreover have "K - Suc s = d - 1" by (simp add: d_def)
  moreover have "splitLoop (of_nat K) (of_nat s) (2 ^ (K - s)) (2 ^ s) (order, sides)
      = splitLoop (of_nat K) (of_nat (Suc s)) (2 ^ (d - 1)) (2 ^ Suc s) (order1, sides1)"
    using lt seg p2_div2 [OF d(1) d(3)]
    by (subst splitLoop.simps) (simp add: d_def [symmetric] add.commute mult.commute)
  ultimately show ?case by simp
qed


lemma doublingLoop_least:
  assumes n: "unat n < 2 ^ 63"
  shows "\<exists>K. K \<le> 63 \<and> unat n < 2 ^ K \<and> (\<forall>j<K. 2 ^ j \<le> unat n)
           \<and> doublingLoop n 1 0 = Some (2 ^ K, of_nat K)"
proof -
  define K where "K = (LEAST k. unat n < 2 ^ k)"
  have nK: "unat n < 2 ^ K" unfolding K_def using n by (rule LeastI)
  have K: "K \<le> 63" unfolding K_def using n by (rule Least_le)
  have below: "\<forall>j<K. 2 ^ j \<le> unat n"
  proof (intro allI impI)
    fix j assume "j < K"
    then have "\<not> unat n < 2 ^ j" unfolding K_def by (rule not_less_Least)
    then show "2 ^ j \<le> unat n" by simp
  qed
  have "doublingLoop n (2 ^ 0) (of_nat 0) = Some (2 ^ K, of_nat K)"
    by (rule doublingLoop_run) (use K nK below in simp_all)
  then have "doublingLoop n 1 0 = Some (2 ^ K, of_nat K)" by simp
  then show ?thesis using K nK below by blast
qed

lemma constructor_returns_bound:
  assumes "NodesOnBisectingPlanes_constructor fieldCount n = Some r"
  shows "unat n < 2 ^ 63"
proof (rule ccontr)
  assume "\<not> unat n < 2 ^ 63"
  then have "2 ^ 63 \<le> unat n" by simp
  then have "doublingLoop n (2 ^ 0) 0 = None" by (rule doublingLoop_overflow) simp
  then show False using assms by (simp add: NodesOnBisectingPlanes_constructor_def)
qed

lemma multiples_top: "multiples K K = {}"
  by (auto simp: multiples_def dest: dvd_imp_le)

lemma constructor_plan:
  assumes n: "unat n < 2 ^ 63"
  shows "\<exists>K order sides. K \<le> 63 \<and> unat n < 2 ^ K \<and> (\<forall>j<K. 2 ^ j \<le> unat n)
           \<and> NodesOnBisectingPlanes_constructor fieldCount n
               = Some (Inr \<lparr>numberOfFields = fieldCount,
                           numberOfIntermediateNodes = 2 ^ K - 1,
                           pathNodesSize = 2 ^ K + 1,
                           adjustmentOrder = order,
                           sideNodeIndices = sides\<rparr>)
           \<and> planInv K (multiples K 0) order sides"
proof -
  define K where "K = (LEAST k. unat n < 2 ^ k)"
  have nK: "unat n < 2 ^ K" unfolding K_def using n by (rule LeastI)
  have K: "K \<le> 63" unfolding K_def using n by (rule Least_le)
  have below: "\<forall>j<K. 2 ^ j \<le> unat n"
  proof (intro allI impI)
    fix j assume "j < K"
    then have "\<not> unat n < 2 ^ j" unfolding K_def by (rule not_less_Least)
    then show "2 ^ j \<le> unat n" by simp
  qed
  have "doublingLoop n (2 ^ 0) (of_nat 0) = Some (2 ^ K, of_nat K)"
    by (rule doublingLoop_run) (use K nK below in simp_all)
  then have dl: "doublingLoop n 1 0 = Some (2 ^ K, of_nat K)" by simp
  have "(2::nat) ^ K + 1 < 2 ^ 64" using p2_bound [OF K] by simp
  then have "unat (of_nat (2 ^ K + 1) :: size_t) = 2 ^ K + 1" by (rule unat_of_nat_size)
  moreover have "(2::size_t) ^ K - 1 + 2 = of_nat (2 ^ K + 1)" by simp
  ultimately have usize: "unat ((2::size_t) ^ K - 1 + 2) = 2 ^ K + 1" by simp
  have "planInv K (multiples K (K - 0)) [] (replicate (2 ^ K + 1) (0, 0))"
    by (simp add: planInv_def multiples_top)
  from splitLoop_inv [OF K _ this]
  have "\<exists>order sides.
          splitLoop (of_nat K) (of_nat 0) (2 ^ (K - 0)) (2 ^ 0)
              ([], replicate (2 ^ K + 1) (0, 0)) = Inr (order, sides)
          \<and> planInv K (multiples K 0) order sides" by simp
  then obtain order sides where sl:
    "splitLoop (of_nat K) 0 (2 ^ K) 1 ([], replicate (2 ^ K + 1) (0, 0)) = Inr (order, sides)"
    and inv: "planInv K (multiples K 0) order sides"
    by auto
  have "NodesOnBisectingPlanes_constructor fieldCount n
               = Some (Inr \<lparr>numberOfFields = fieldCount,
                           numberOfIntermediateNodes = 2 ^ K - 1,
                           pathNodesSize = 2 ^ K + 1,
                           adjustmentOrder = order,
                           sideNodeIndices = sides\<rparr>)"
    using dl sl usize by (simp add: NodesOnBisectingPlanes_constructor_def Let_def)
  then show ?thesis using K nK below inv by blast
qed

text \<open>
  Claim C4, amended. For every requested number \<open>n\<close> of intermediate nodes with
  \<open>1 \<le> n < 2 ^ 63\<close>, lines 24 to 31 of the constructor set the number of intermediate
  nodes to the smallest \<open>2 ^ k - 1\<close> that is at least \<open>n\<close>, and every plan the
  constructor goes on to produce has that number. Whether it does produce one is
  left to the \<^verbatim>\<open>resize\<close> calls that follow line 31, which throw when \<open>N + 2\<close>
  elements cannot be allocated, and to the constructor of the base class, which runs
  before line 24.
\<close>

theorem constructor_node_count:
  assumes "1 \<le> unat n" and "unat n < 2 ^ 63"
  shows "\<exists>N k. intermediateNodesSet n = Some N
           \<and> unat N = 2 ^ k - 1
           \<and> unat n \<le> 2 ^ k - 1
           \<and> (\<forall>j. unat n \<le> 2 ^ j - 1 \<longrightarrow> k \<le> j)
           \<and> (\<forall>fieldCount plan.
                 NodesOnBisectingPlanes_constructor fieldCount n = Some (Inr plan) \<longrightarrow>
                 numberOfIntermediateNodes plan = N)"
proof -
  from doublingLoop_least [OF assms(2)]
  obtain K where K: "K \<le> 63" "unat n < 2 ^ K" "\<forall>j<K. 2 ^ j \<le> unat n"
    and dl: "doublingLoop n 1 0 = Some (2 ^ K, of_nat K)"
    by blast
  have "unat ((2::size_t) ^ K - 1) = unat ((2::size_t) ^ K) - unat (1::size_t)"
    by (rule unat_sub) (use K(1) in \<open>simp add: word_le_nat_alt unat_p2\<close>)
  then have N: "unat ((2::size_t) ^ K - 1) = 2 ^ K - 1" using K(1) by (simp add: unat_p2)
  have least: "\<forall>j. unat n \<le> 2 ^ j - 1 \<longrightarrow> K \<le> j"
  proof (intro allI impI)
    fix j assume a: "unat n \<le> 2 ^ j - 1"
    show "K \<le> j"
    proof (rule ccontr)
      assume "\<not> K \<le> j"
      then have "2 ^ j \<le> unat n" using K(3) by simp
      moreover have "(0::nat) < 2 ^ j" by simp
      ultimately show False using a by linarith
    qed
  qed
  have set: "intermediateNodesSet n = Some (2 ^ K - 1)"
    using dl by (simp add: intermediateNodesSet_def)
  have plans: "\<forall>fieldCount plan.
                 NodesOnBisectingPlanes_constructor fieldCount n = Some (Inr plan) \<longrightarrow>
                 numberOfIntermediateNodes plan = 2 ^ K - 1"
    using dl
    by (auto simp add: NodesOnBisectingPlanes_constructor_def Let_def
          split: sum.splits prod.splits)
  have "intermediateNodesSet n = Some (2 ^ K - 1)
           \<and> unat ((2::size_t) ^ K - 1) = 2 ^ K - 1
           \<and> unat n \<le> 2 ^ K - 1
           \<and> (\<forall>j. unat n \<le> 2 ^ j - 1 \<longrightarrow> K \<le> j)
           \<and> (\<forall>fieldCount plan.
                 NodesOnBisectingPlanes_constructor fieldCount n = Some (Inr plan) \<longrightarrow>
                 numberOfIntermediateNodes plan = 2 ^ K - 1)"
    using set N K(2) least plans by simp
  then show ?thesis by blast
qed

text \<open>
  For \<open>n = 2 ^ 63\<close> the doubling wraps around to 0 after 64 steps and stays there: the
  loop does not end and no number is set.
\<close>

theorem constructor_node_count_counterexample:
  "intermediateNodesSet (2 ^ 63) = None"
proof -
  have "unat ((2::size_t) ^ 63) = 2 ^ 63" by (rule unat_p2) simp
  then have "(2::nat) ^ 63 \<le> unat ((2::size_t) ^ 63)" by simp
  then have "doublingLoop (2 ^ 63) (2 ^ 0) 0 = None" by (rule doublingLoop_overflow) simp
  then show ?thesis by (simp add: intermediateNodesSet_def)
qed

theorem constructor_node_count_witness:
  "1 \<le> unat (5::size_t) \<and> unat (5::size_t) < 2 ^ 63
   \<and> (\<exists>N k. intermediateNodesSet 5 = Some N
           \<and> unat N = 2 ^ k - 1
           \<and> unat (5::size_t) \<le> 2 ^ k - 1
           \<and> (\<forall>j. unat (5::size_t) \<le> 2 ^ j - 1 \<longrightarrow> k \<le> j)
           \<and> (\<forall>fieldCount plan.
                 NodesOnBisectingPlanes_constructor fieldCount 5 = Some (Inr plan) \<longrightarrow>
                 numberOfIntermediateNodes plan = N))
   \<and> map intermediateNodesSet [1, 2, 3, 4, 5, 8, 9, 16]
       = [Some 1, Some 3, Some 3, Some 7, Some 7, Some 15, Some 15, Some 31]
   \<and> map_option (map_sum id numberOfIntermediateNodes) (NodesOnBisectingPlanes_constructor 2 5)
       = Some (Inr 7)"
proof -
  have small: "1 \<le> unat (5::size_t)" "unat (5::size_t) < 2 ^ 63" by simp_all
  have examples: "map intermediateNodesSet [1, 2, 3, 4, 5, 8, 9, 16]
       = [Some 1, Some 3, Some 3, Some 7, Some 7, Some 15, Some 15, Some 31]"
    by code_simp
  have plan: "map_option (map_sum id numberOfIntermediateNodes)
                (NodesOnBisectingPlanes_constructor 2 5) = Some (Inr 7)"
    by code_simp
  from constructor_node_count [OF small] small examples plan show ?thesis by blast
qed

text \<open>
  Claim C5. In every plan the constructor returns, the pair of side node indices
  recorded for the index at position \<open>p\<close> of the adjustment order lies at equal distance
  below and above that index, and each of the two is index 0, the last index
  \<open>numberOfIntermediateNodes + 1\<close>, or an index at an earlier position of the order.
\<close>

theorem side_nodes_placed_first:
  assumes "NodesOnBisectingPlanes_constructor fieldCount n = Some (Inr plan)"
    and "p < length (adjustmentOrder plan)"
  shows "neighboursPlaced (numberOfIntermediateNodes plan + 1) (adjustmentOrder plan)
           (sideNodeIndices plan) p"
proof -
  have "unat n < 2 ^ 63" using assms(1) by (rule constructor_returns_bound)
  from constructor_plan [OF this, of fieldCount]
  obtain K order sides where
    c: "NodesOnBisectingPlanes_constructor fieldCount n
               = Some (Inr \<lparr>numberOfFields = fieldCount,
                           numberOfIntermediateNodes = 2 ^ K - 1,
                           pathNodesSize = 2 ^ K + 1,
                           adjustmentOrder = order,
                           sideNodeIndices = sides\<rparr>)"
    and inv: "planInv K (multiples K 0) order sides"
    by blast
  from c assms(1) have plan: "plan = \<lparr>numberOfFields = fieldCount,
                           numberOfIntermediateNodes = 2 ^ K - 1,
                           pathNodesSize = 2 ^ K + 1,
                           adjustmentOrder = order,
                           sideNodeIndices = sides\<rparr>" by simp
  have "neighboursPlaced (2 ^ K) order sides p"
    using inv assms(2) by (simp add: planInv_def plan)
  then show ?thesis by (simp add: plan)
qed

theorem side_nodes_placed_first_witness:
  "NodesOnBisectingPlanes_constructor 2 5
     = Some (Inr \<lparr>numberOfFields = 2, numberOfIntermediateNodes = 7, pathNodesSize = 9,
          adjustmentOrder = [4, 2, 6, 1, 3, 5, 7],
          sideNodeIndices =
            [(0, 0), (0, 2), (0, 4), (2, 4), (0, 8), (4, 6), (4, 8), (6, 8), (0, 0)]\<rparr>)
   \<and> (4::nat) < length [4, 2, 6, 1, 3, 5, 7 :: size_t]
   \<and> neighboursPlaced (7 + 1) [4, 2, 6, 1, 3, 5, 7]
         [(0, 0), (0, 2), (0, 4), (2, 4), (0, 8), (4, 6), (4, 8), (6, 8), (0, 0)] 4"
proof -
  have plan: "NodesOnBisectingPlanes_constructor 2 5
     = Some (Inr \<lparr>numberOfFields = 2, numberOfIntermediateNodes = 7, pathNodesSize = 9,
          adjustmentOrder = [4, 2, 6, 1, 3, 5, 7],
          sideNodeIndices =
            [(0, 0), (0, 2), (0, 4), (2, 4), (0, 8), (4, 6), (4, 8), (6, 8), (0, 0)]\<rparr>)"
    by code_simp
  from side_nodes_placed_first [OF plan, of 4] plan show ?thesis by simp
qed

text \<open>
  Claim C6, amended. With a requested number of 0 the constructor raises no error: it
  returns the plan with no intermediate node, the two end points as the only path nodes
  and an empty adjustment order.
\<close>

theorem constructor_zero_nodes: "NodesOnBisectingPlanes_constructor fieldCount 0
   = Some (Inr \<lparr>numberOfFields = fieldCount, numberOfIntermediateNodes = 0, pathNodesSize = 2,
                   adjustmentOrder = [], sideNodeIndices = [(0, 0), (0, 0)]\<rparr>)"
proof -
  have r: "replicate 2 (0::size_t, 0::size_t) = [(0, 0), (0, 0)]" by (simp add: numeral_2_eq_2)
  show ?thesis
    by (simp add: NodesOnBisectingPlanes_constructor_def doublingLoop.simps splitLoop.simps r)
qed


theorem constructor_zero_nodes_counterexample:
  "NodesOnBisectingPlanes_constructor 2 0
     = Some (Inr \<lparr>numberOfFields = 2, numberOfIntermediateNodes = 0, pathNodesSize = 2,
                     adjustmentOrder = [], sideNodeIndices = [(0, 0), (0, 0)]\<rparr>)"
  by code_simp

section \<open>The rotation matrix\<close>

lemma sqrt_225_16: "sqrt (225 / 16) = 15 / 4"
proof -
  have "sqrt ((15 / 4) ^ 2) = (15 / 4 :: real)" by simp
  then show ?thesis by (simp add: power2_eq_square)
qed

lemma sqrt_25: "sqrt 25 = 5"
proof -
  have "sqrt (5 ^ 2) = (5 :: real)" by simp
  then show ?thesis by simp
qed

lemmas rotation_loops = firstRowFor.simps referenceColumnFor.simps scaledRowsFor.simps
  zeroRowsFor.simps columnsFor.simps normalizeFor.simps

text \<open>
  Claim C8. For two fields and side nodes \<open>(0, 0)\<close> and \<open>(3, 4)\<close>, whose difference
  has no zero component, the matrix the code writes with reference field 0 has the rows
  \<open>(3/5, 3)\<close> and \<open>(4/5, - 135/16)\<close>: the reference column is the normalised
  difference, but the two columns are not orthogonal and the other column is not of
  length 1. With reference field 1 the two columns change places. For the side nodes
  \<open>(1, 0)\<close> and \<open>(3, 4)\<close> the code writes the same matrix, whose reference column
  \<open>(3/5, 4/5)\<close> is not along the difference \<open>(2, 4)\<close>.
\<close>

theorem UpdateRotationMatrix_not_orthonormal:
  "UpdateRotationMatrix 2 0 [0, 0] [3, 4] (\<lambda>rowIndex columnIndex. 0) 0 0 = 3 / 5
 \<and> UpdateRotationMatrix 2 0 [0, 0] [3, 4] (\<lambda>rowIndex columnIndex. 0) 0 1 = 3
 \<and> UpdateRotationMatrix 2 0 [0, 0] [3, 4] (\<lambda>rowIndex columnIndex. 0) 1 0 = 4 / 5
 \<and> UpdateRotationMatrix 2 0 [0, 0] [3, 4] (\<lambda>rowIndex columnIndex. 0) 1 1 = - 135 / 16
 \<and> columnDot 2 (UpdateRotationMatrix 2 0 [0, 0] [3, 4] (\<lambda>rowIndex columnIndex. 0)) 0 1
       = - 99 / 20
 \<and> columnDot 2 (UpdateRotationMatrix 2 0 [0, 0] [3, 4] (\<lambda>rowIndex columnIndex. 0)) 1 1
       = 20529 / 256
 \<and> columnDot 2 (UpdateRotationMatrix 2 1 [0, 0] [3, 4] (\<lambda>rowIndex columnIndex. 0)) 0 1
       = - 99 / 20
 \<and> UpdateRotationMatrix 2 0 [1, 0] [3, 4] (\<lambda>rowIndex columnIndex. 0) 0 0 = 3 / 5
 \<and> UpdateRotationMatrix 2 0 [1, 0] [3, 4] (\<lambda>rowIndex columnIndex. 0) 1 0 = 4 / 5"
proof -
  have entries:
    "UpdateRotationMatrix 2 0 [0, 0] [3, 4] (\<lambda>rowIndex columnIndex. 0) 0 0 = 3 / 5"
    "UpdateRotationMatrix 2 0 [0, 0] [3, 4] (\<lambda>rowIndex columnIndex. 0) 0 1 = 3"
    "UpdateRotationMatrix 2 0 [0, 0] [3, 4] (\<lambda>rowIndex columnIndex. 0) 1 0 = 4 / 5"
    "UpdateRotationMatrix 2 0 [0, 0] [3, 4] (\<lambda>rowIndex columnIndex. 0) 1 1 = - 135 / 16"
    by (simp_all add: UpdateRotationMatrix_def rotation_loops Let_def setCoeff_def
          sqrt_225_16 sqrt_25)
  have swapped:
    "UpdateRotationMatrix 2 1 [0, 0] [3, 4] (\<lambda>rowIndex columnIndex. 0) 0 0 = 3"
    "UpdateRotationMatrix 2 1 [0, 0] [3, 4] (\<lambda>rowIndex columnIndex. 0) 0 1 = 3 / 5"
    "UpdateRotationMatrix 2 1 [0, 0] [3, 4] (\<lambda>rowIndex columnIndex. 0) 1 0 = - 135 / 16"
    "UpdateRotationMatrix 2 1 [0, 0] [3, 4] (\<lambda>rowIndex columnIndex. 0) 1 1 = 4 / 5"
    by (simp_all add: UpdateRotationMatrix_def rotation_loops Let_def setCoeff_def
          sqrt_225_16 sqrt_25)
  have shifted:
    "UpdateRotationMatrix 2 0 [1, 0] [3, 4] (\<lambda>rowIndex columnIndex. 0) 0 0 = 3 / 5"
    "UpdateRotationMatrix 2 0 [1, 0] [3, 4] (\<lambda>rowIndex columnIndex. 0) 1 0 = 4 / 5"
    by (simp_all add: UpdateRotationMatrix_def rotation_loops Let_def setCoeff_def
          sqrt_225_16 sqrt_25)
  have rows: "[0..<2] = [0, 1]" by (simp add: upt_rec)
  show ?thesis using entries swapped shifted by (simp add: columnDot_def rows)
qed

section \<open>The retry loop of FindMinima\<close>

lemma retryWhile_stuck_aux:
  assumes "retryWhile gradientMinimizer realSolution foundMinimum retries = Some result"
  shows "\<not> (minimumIsNan foundMinimum
            \<and> minimumIsNan (gradientMinimizer (scaledStartingPoint realSolution)))"
proof (rule retryWhile.raw_induct
    [where P = "\<lambda>gm x m k r. \<not> (minimumIsNan m \<and> minimumIsNan (gm (scaledStartingPoint x)))",
      OF _ assms])
  fix f :: "(real list \<Rightarrow> PotentialMinimum) \<Rightarrow> real list \<Rightarrow> PotentialMinimum \<Rightarrow> nat
              \<Rightarrow> (PotentialMinimum \<times> nat) option"
    and gm x m k r
  assume IH: "\<And>gm x m k r. f gm x m k = Some r \<Longrightarrow>
                 \<not> (minimumIsNan m \<and> minimumIsNan (gm (scaledStartingPoint x)))"
    and step: "(if minimumIsNan m then f gm x (gm (scaledStartingPoint x)) (k + 1)
                else Some (m, k)) = Some r"
  show "\<not> (minimumIsNan m \<and> minimumIsNan (gm (scaledStartingPoint x)))"
  proof (cases "minimumIsNan m")
    case True
    with step have "f gm x (gm (scaledStartingPoint x)) (k + 1) = Some r" by simp
    from IH [OF this] show ?thesis by simp
  next
    case False
    then show ?thesis by simp
  qed
qed

lemma retryWhile_stuck:
  "minimumIsNan foundMinimum \<Longrightarrow>
   minimumIsNan (gradientMinimizer (scaledStartingPoint realSolution)) \<Longrightarrow>
   retryWhile gradientMinimizer realSolution foundMinimum retries = None"
  using retryWhile_stuck_aux [of gradientMinimizer realSolution foundMinimum retries]
  by (cases "retryWhile gradientMinimizer realSolution foundMinimum retries") auto

text \<open>
  Claim C9. The claim has the retry loop end after a bounded number of retries. The
  loop has no bound and asks for the same point on every pass, so it does not end
  when the minimizer's answer is not a number both at the starting point and at the
  starting point scaled by 0.8: with the minimizer that never answers with a number
  and the starting point \<open>[1]\<close>, the loop runs for ever.
\<close>

theorem retry_loop_never_ends:
  "FindMinima_fromStartingPoint nanMinimum [1] = None"
  unfolding FindMinima_fromStartingPoint_def
  by (rule retryWhile_stuck) (simp_all add: minimumIsNan_def nanMinimum_def)

end
